theory Spec2Isabelle
  imports Main
begin

section \<open>The training orchestrator of \<^verbatim>\<open>pyrad/engine/trainer.py\<close>\<close>

text \<open>
  The class \<^verbatim>\<open>Trainer\<close> drives collaborators that live outside the file: the dataset
  readers, the graph (the scene model), the optimizer collection, the event writer, the
  viewer, the file system and the checkpoint serialiser. The embedding keeps the
  trainer's own control flow and makes every call it issues observable:

  \<^item> the attributes of a \<^verbatim>\<open>Trainer\<close> object are a record;
  \<^item> every call is an event; a method returns the list of events it issued, in program
    order. A call of one of the trainer's own methods is recorded on entry and is
    followed by the calls its body makes;
  \<^item> what a collaborator answers is given by an environment of oracles. An oracle sees
    the whole history of events issued before the call, so a collaborator may answer
    differently each time;
  \<^item> an exception is a value: a method returns \<open>Inl e\<close> when it raises \<open>e\<close> and
    \<open>Inr x\<close> when it returns \<open>x\<close>; the events issued and the attributes written before
    the exception are kept.

  The \<^verbatim>\<open>TimeWriter\<close> scopes and the \<^verbatim>\<open>profiler.time_function\<close> decorator measure wall-clock
  time and are left out, and so are the calls of \<^verbatim>\<open>logging.info\<close>; the value written
  for \<^verbatim>\<open>RAYS_PER_SEC\<close> is a floating-point quotient and only the call is recorded.
\<close>

subsection \<open>Values\<close>

datatype exn =
    AssertionError string
  | KeyError string
  | ZeroDivisionError
  | StopIteration
  | ValueError
  | OtherError string

text \<open>Tensors, floats and serialised states are opaque handles.\<close>

datatype blob = Blob nat

type_synonym loss_dict = "(string \<times> blob) list"
type_synonym outputs = "(string \<times> blob) list"

text \<open>A training item is the pair \<^verbatim>\<open>(ray_indices, batch)\<close> the training reader yields.\<close>

type_synonym batch = nat
type_synonym ray_bundle = nat

record checkpoint =
  ckpt_step :: int
  ckpt_model :: blob
  ckpt_optimizers :: "(string \<times> blob) list"

subsection \<open>Configuration\<close>

record resume_train_config =
  load_dir :: "string option"
  load_step :: int

record trainer_config =
  max_num_iterations :: int
  steps_per_save :: "int option"
  steps_per_test :: int
  model_dir :: string
  resume_train :: resume_train_config

record logging_config =
  steps_per_log :: int

record viewer_config =
  enable :: bool
  zmq_url :: string
  steps_per_render_image :: "int option"

record config =
  trainer :: trainer_config
  logging :: logging_config
  viewer :: viewer_config

subsection \<open>The trainer object\<close>

text \<open>
  \<open>training\<close> is the mode flag of the graph (\<^verbatim>\<open>graph.train()\<close> sets it,
  \<^verbatim>\<open>graph.eval()\<close> clears it), \<open>callbacks\<close> is \<^verbatim>\<open>graph.callbacks\<close>, \<open>vis\<close> says
  whether \<^verbatim>\<open>self.vis\<close> holds a visualizer, \<open>wrapped\<close> whether the graph is wrapped for
  distributed execution.
\<close>

record trainer_obj =
  local_rank :: int
  world_size :: int
  device :: string
  start_step :: int
  vis :: bool
  dataloader_eval :: "(ray_bundle \<times> batch) list"
  training :: bool
  callbacks :: "nat list"
  wrapped :: bool

subsection \<open>Events and the environment\<close>

text \<open>Calls are grouped by the collaborator that receives them.\<close>

datatype data_call =
    SetupDatasetTrain string
  | SetupDatasetEval bool string
  | IterTrain
  | NextTrain
  | RandomSample nat nat
  | CameraIndices ray_bundle

datatype graph_call =
    SetupGraph string
  | LoadGraph checkpoint
  | RegisterCallbacks
  | Forward batch
  | Backward blob
  | AfterStep nat int
  | GraphEval
  | GraphTrain
  | GetOutputs ray_bundle
  | LogTestImageOutputs int int batch outputs

datatype optimizer_call =
    SetupOptimizers
  | LoadOptimizers checkpoint
  | ZeroGradAll
  | OptimizerStepAll
  | SchedulerStepAll int

datatype writer_call =
    SetupEventWriters int
  | SetupProfiler
  | PutScalarRaysPerSec int
  | PutDict loss_dict int
  | WriterWriteOutStorage

datatype viewer_call =
    ViewerWindow string
  | VisDelete
  | DrawCameraFrustum nat
  | DrawAabb
  | ViewerCamera
  | SetImage blob

datatype os_call =
    PathExists string
  | Makedirs string
  | TorchLoad string
  | TorchSave string int

datatype dist_call =
    DDPWrap int
  | DistBarrier int

text \<open>The trainer's own methods, recorded on entry with their arguments.\<close>

datatype method_call =
    LoadCheckpoint
  | DrawSceneInViewer
  | TrainIteration batch int
  | SaveCheckpoint string int
  | RenderImageInViewer
  | EvalWithDataloader int
  | TestImage ray_bundle batch int
  | WriteOutStorage int

datatype event =
    Data data_call
  | Graph graph_call
  | Optimizers optimizer_call
  | Writer writer_call
  | Viewer viewer_call
  | Os os_call
  | Dist dist_call
  | Method method_call

text \<open>
  \<open>fails\<close> decides whether a call that returns nothing raises. The other oracles
  answer the calls that return a value. \<open>is_main_process\<close> is what the decorator
  \<^verbatim>\<open>check_main_thread\<close> tests.
\<close>

record env =
  fails :: "event list \<Rightarrow> event \<Rightarrow> exn option"
  next_train :: "event list \<Rightarrow> exn + batch"
  forward :: "event list \<Rightarrow> batch \<Rightarrow> exn + loss_dict"
  get_outputs :: "event list \<Rightarrow> ray_bundle \<Rightarrow> exn + outputs"
  camera_indices :: "event list \<Rightarrow> ray_bundle \<Rightarrow> exn + int"
  log_test_image_outputs :: "event list \<Rightarrow> int \<Rightarrow> int \<Rightarrow> batch \<Rightarrow> outputs \<Rightarrow> exn + blob"
  viewer_camera :: "event list \<Rightarrow> exn + ray_bundle"
  path_exists :: "event list \<Rightarrow> string \<Rightarrow> bool"
  torch_load :: "event list \<Rightarrow> string \<Rightarrow> exn + checkpoint"
  dataset_eval :: "event list \<Rightarrow> bool \<Rightarrow> exn + (ray_bundle \<times> batch) list"
  graph_callbacks :: "event list \<Rightarrow> exn + nat list"
  train_dataset_len :: nat
  random_sample :: "event list \<Rightarrow> nat \<Rightarrow> nat \<Rightarrow> nat list"
  is_main_process :: bool

subsection \<open>Methods as functions of the history and the object\<close>

type_synonym 'a proc = "event list \<Rightarrow> trainer_obj \<Rightarrow> (exn + 'a) \<times> event list \<times> trainer_obj"

definition returnE :: "'a \<Rightarrow> 'a proc" where
  "returnE x = (\<lambda>h s. (Inr x, [], s))"

definition raiseE :: "exn \<Rightarrow> 'a proc" where
  "raiseE e = (\<lambda>h s. (Inl e, [], s))"

definition bindE :: "'a proc \<Rightarrow> ('a \<Rightarrow> 'b proc) \<Rightarrow> 'b proc" where
  "bindE m f = (\<lambda>h s.
     case m h s of
       (Inl e, evs, s') \<Rightarrow> (Inl e, evs, s')
     | (Inr x, evs, s') \<Rightarrow>
         (case f x (h @ evs) s' of (r, evs', s'') \<Rightarrow> (r, evs @ evs', s'')))"

definition thenE :: "'a proc \<Rightarrow> 'b proc \<Rightarrow> 'b proc" where
  "thenE m k = bindE m (\<lambda>_. k)"

definition liftE :: "exn + 'a \<Rightarrow> 'a proc" where
  "liftE r = (\<lambda>h s. (r, [], s))"

definition getE :: "(trainer_obj \<Rightarrow> 'a) \<Rightarrow> 'a proc" where
  "getE f = (\<lambda>h s. (Inr (f s), [], s))"

definition modifyE :: "(trainer_obj \<Rightarrow> trainer_obj) \<Rightarrow> unit proc" where
  "modifyE f = (\<lambda>h s. (Inr (), [], f s))"

definition whenE :: "bool \<Rightarrow> unit proc \<Rightarrow> unit proc" where
  "whenE c m = (if c then m else returnE ())"

text \<open>Entering one of the trainer's own methods: the call is recorded, nothing can fail.\<close>

definition enter :: "event \<Rightarrow> unit proc" where
  "enter ev = (\<lambda>h s. (Inr (), [ev], s))"

text \<open>A call of a collaborator: the oracle answers from the history before the call.\<close>

definition query :: "event \<Rightarrow> (event list \<Rightarrow> exn + 'a) \<Rightarrow> 'a proc" where
  "query ev orc = (\<lambda>h s. (orc h, [ev], s))"

definition call :: "env \<Rightarrow> event \<Rightarrow> unit proc" where
  "call en ev = query ev (\<lambda>h. case fails en h ev of Some e \<Rightarrow> Inl e | None \<Rightarrow> Inr ())"

text \<open>A \<^verbatim>\<open>for\<close> loop over a finite sequence.\<close>

fun forE :: "'a list \<Rightarrow> ('a \<Rightarrow> unit proc) \<Rightarrow> unit proc" where
  "forE [] f = returnE ()"
| "forE (x # xs) f = thenE (f x) (forE xs f)"

subsection \<open>Python expressions\<close>

text \<open>\<^verbatim>\<open>step % d == 0\<close>: the remainder raises on a zero divisor.\<close>

definition mod_is_zero :: "int \<Rightarrow> int \<Rightarrow> exn + bool" where
  "mod_is_zero step d = (if d = 0 then Inl ZeroDivisionError else Inr (step mod d = 0))"

text \<open>\<^verbatim>\<open>a and b\<close>, \<^verbatim>\<open>a or b\<close> as conditions: the right operand is evaluated only when needed.\<close>

definition andE :: "exn + bool \<Rightarrow> exn + bool \<Rightarrow> exn + bool" where
  "andE a b = (case a of Inl e \<Rightarrow> Inl e | Inr c \<Rightarrow> if c then b else Inr False)"

definition orE :: "exn + bool \<Rightarrow> exn + bool \<Rightarrow> exn + bool" where
  "orE a b = (case a of Inl e \<Rightarrow> Inl e | Inr c \<Rightarrow> if c then Inr True else b)"

text \<open>\<^verbatim>\<open>steps and step % steps == 0\<close> for an optional cadence: \<^verbatim>\<open>None\<close> and \<^verbatim>\<open>0\<close> are falsy.\<close>

definition cadence_hit :: "int option \<Rightarrow> int \<Rightarrow> exn + bool" where
  "cadence_hit steps step =
     (case steps of None \<Rightarrow> Inr False
      | Some d \<Rightarrow> if d = 0 then Inr False else mod_is_zero step d)"

text \<open>\<^verbatim>\<open>d[key]\<close> on a dictionary.\<close>

definition dict_get :: "(string \<times> 'v) list \<Rightarrow> string \<Rightarrow> exn + 'v" where
  "dict_get d k = (case map_of d k of None \<Rightarrow> Inl (KeyError k) | Some v \<Rightarrow> Inr v)"

text \<open>Decimal digits, \<^verbatim>\<open>str(n)\<close> and the format \<^verbatim>\<open>{n:09d}\<close>.\<close>

definition digit_char :: "nat \<Rightarrow> char" where
  "digit_char n = ''0123456789'' ! n"

fun str_nat :: "nat \<Rightarrow> string" where
  "str_nat n = (if n < 10 then [digit_char n] else str_nat (n div 10) @ [digit_char (n mod 10)])"

declare str_nat.simps [simp del]

definition str_int :: "int \<Rightarrow> string" where
  "str_int i = (if i < 0 then ''-'' @ str_nat (nat (- i)) else str_nat (nat i))"

definition zero_pad :: "nat \<Rightarrow> string \<Rightarrow> string" where
  "zero_pad w s = replicate (w - length s) (CHR ''0'') @ s"

definition format_09d :: "int \<Rightarrow> string" where
  "format_09d i =
     (if i < 0 then ''-'' @ zero_pad 8 (str_nat (nat (- i))) else zero_pad 9 (str_nat (nat i)))"

text \<open>\<^verbatim>\<open>os.path.join(a, b)\<close> for a second component that does not start with a slash.\<close>

definition path_join :: "string \<Rightarrow> string \<Rightarrow> string" where
  "path_join a b = (if a = [] \<or> last a = CHR ''/'' then a @ b else a @ ''/'' @ b)"

definition ckpt_name :: "int \<Rightarrow> string" where
  "ckpt_name step = ''step-'' @ format_09d step @ ''.ckpt''"

subsection \<open>\<^verbatim>\<open>Trainer.__init__\<close>\<close>

text \<open>
  The attributes as lines 55 to 66 assign them, before the constructor calls anything.
  No graph exists yet; \<open>training\<close> is set when \<^verbatim>\<open>setup\<close> builds it.
\<close>

definition new_obj :: "int \<Rightarrow> int \<Rightarrow> trainer_obj" where
  "new_obj lr ws =
     \<lparr> local_rank = lr,
       world_size = ws,
       device = (if ws = 0 then ''cpu'' else ''cuda:'' @ str_int lr),
       start_step = 0,
       vis = False,
       dataloader_eval = [],
       training = False,
       callbacks = [],
       wrapped = False \<rparr>"

text \<open>
  The rest of the constructor sets up the writers and the profiler and, when the viewer
  is enabled, connects to it (\<^verbatim>\<open>ViewerWindow\<close> and \<^verbatim>\<open>Visualizer\<close> are one call here) and
  clears it.
\<close>

definition init_calls :: "config \<Rightarrow> env \<Rightarrow> unit proc" where
  "init_calls cfg en =
     thenE (call en (Writer (SetupEventWriters (max_num_iterations (trainer cfg)))))
    (thenE (call en (Writer SetupProfiler))
    (whenE (enable (viewer cfg))
       (thenE (call en (Viewer (ViewerWindow (zmq_url (viewer cfg)))))
       (thenE (modifyE (\<lambda>s. s\<lparr>vis := True\<rparr>))
              (call en (Viewer VisDelete))))))"

definition init :: "config \<Rightarrow> env \<Rightarrow> int \<Rightarrow> int \<Rightarrow> event list \<Rightarrow>
    (exn + unit) \<times> event list \<times> trainer_obj" where
  "init cfg en lr ws h = init_calls cfg en h (new_obj lr ws)"

subsection \<open>\<^verbatim>\<open>_load_checkpoint\<close>, \<^verbatim>\<open>_save_checkpoint\<close> and \<^verbatim>\<open>setup\<close>\<close>

text \<open>
  \<^verbatim>\<open>assert os.path.exists(load_path), f"Checkpoint {load_path} does not exist"\<close> raises
  \<^verbatim>\<open>AssertionError\<close> with that message (assertions enabled, the default).
\<close>

definition load_checkpoint :: "config \<Rightarrow> env \<Rightarrow> unit proc" where
  "load_checkpoint cfg en =
     thenE (enter (Method LoadCheckpoint))
       (case load_dir (resume_train (trainer cfg)) of
          None \<Rightarrow> raiseE (OtherError ''TypeError'')
        | Some d \<Rightarrow>
            (let load_path = path_join d (ckpt_name (load_step (resume_train (trainer cfg)))) in
             bindE (query (Os (PathExists load_path)) (\<lambda>h. Inr (path_exists en h load_path)))
               (\<lambda>ex.
                  if \<not> ex then raiseE (AssertionError (''Checkpoint '' @ load_path @ '' does not exist''))
                  else
                    bindE (query (Os (TorchLoad load_path)) (\<lambda>h. torch_load en h load_path))
                      (\<lambda>loaded_state.
                         thenE (modifyE (\<lambda>s. s\<lparr>start_step := ckpt_step loaded_state + 1\<rparr>))
                        (thenE (call en (Graph (LoadGraph loaded_state)))
                               (call en (Optimizers (LoadOptimizers loaded_state))))))))"

text \<open>
  Modelled from the spec: the decorator \<^verbatim>\<open>check_main_thread\<close> of
  \<^verbatim>\<open>pyrad/utils/decorators.py\<close>, which is not part of the sources at hand. A checkpoint is
  written by the designated coordinator process only: elsewhere the decorated method
  returns without running its body. Collecting the state dictionaries of the graph and
  of the optimizers is part of the \<open>TorchSave\<close> call.
\<close>

definition save_checkpoint :: "env \<Rightarrow> string \<Rightarrow> int \<Rightarrow> unit proc" where
  "save_checkpoint en output_dir step =
     thenE (enter (Method (SaveCheckpoint output_dir step)))
       (whenE (is_main_process en)
          (bindE (query (Os (PathExists output_dir)) (\<lambda>h. Inr (path_exists en h output_dir)))
             (\<lambda>ex.
                thenE (whenE (\<not> ex) (call en (Os (Makedirs output_dir))))
                      (call en (Os (TorchSave (path_join output_dir (ckpt_name step)) step))))))"

text \<open>\<^verbatim>\<open>if load_dir:\<close> is false for \<^verbatim>\<open>None\<close> and for the empty string.\<close>

definition truthy_str :: "string option \<Rightarrow> bool" where
  "truthy_str x = (case x of None \<Rightarrow> False | Some d \<Rightarrow> d \<noteq> [])"

text \<open>A graph that \<^verbatim>\<open>setup_graph\<close> has just built is in training mode.\<close>

definition setup_trainer :: "config \<Rightarrow> env \<Rightarrow> bool \<Rightarrow> unit proc" where
  "setup_trainer cfg en test_mode =
     bindE (getE device) (\<lambda>dev.
     thenE (call en (Data (SetupDatasetTrain dev)))
    (bindE (query (Data (SetupDatasetEval test_mode dev)) (\<lambda>h. dataset_eval en h test_mode)) (\<lambda>dl.
     thenE (modifyE (\<lambda>s. s\<lparr>dataloader_eval := dl\<rparr>))
    (thenE (call en (Graph (SetupGraph dev)))
    (thenE (modifyE (\<lambda>s. s\<lparr>training := True\<rparr>))
    (thenE (call en (Optimizers SetupOptimizers))
    (thenE (whenE (truthy_str (load_dir (resume_train (trainer cfg)))) (load_checkpoint cfg en))
    (thenE (bindE (getE world_size) (\<lambda>ws. bindE (getE local_rank) (\<lambda>lr.
              whenE (ws > 1)
                (thenE (call en (Dist (DDPWrap lr)))
                (thenE (modifyE (\<lambda>s. s\<lparr>wrapped := True\<rparr>))
                       (call en (Dist (DistBarrier lr))))))))
    (bindE (query (Graph RegisterCallbacks) (graph_callbacks en)) (\<lambda>cbs.
       modifyE (\<lambda>s. s\<lparr>callbacks := cbs\<rparr>)))))))))))"

subsection \<open>\<^verbatim>\<open>train_iteration\<close>\<close>

definition train_iteration :: "env \<Rightarrow> batch \<Rightarrow> int \<Rightarrow> loss_dict proc" where
  "train_iteration en b step =
     thenE (enter (Method (TrainIteration b step)))
    (bindE (query (Graph (Forward b)) (\<lambda>h. forward en h b)) (\<lambda>loss_dict.
     bindE (liftE (dict_get loss_dict ''aggregated_loss'')) (\<lambda>loss.
     thenE (call en (Optimizers ZeroGradAll))
    (thenE (call en (Graph (Backward loss)))
    (thenE (call en (Optimizers OptimizerStepAll))
    (thenE (call en (Optimizers (SchedulerStepAll step)))
    (thenE (bindE (getE callbacks) (\<lambda>cbs. forE cbs (\<lambda>c. call en (Graph (AfterStep c step)))))
           (returnE loss_dict))))))))"

subsection \<open>Evaluation and the viewer\<close>

definition graph_eval :: "env \<Rightarrow> unit proc" where
  "graph_eval en = thenE (call en (Graph GraphEval)) (modifyE (\<lambda>s. s\<lparr>training := False\<rparr>))"

definition graph_train :: "env \<Rightarrow> unit proc" where
  "graph_train en = thenE (call en (Graph GraphTrain)) (modifyE (\<lambda>s. s\<lparr>training := True\<rparr>))"

definition test_image :: "env \<Rightarrow> ray_bundle \<Rightarrow> batch \<Rightarrow> int \<Rightarrow> blob proc" where
  "test_image en camera_ray_bundle b step =
     thenE (enter (Method (TestImage camera_ray_bundle b step)))
    (thenE (graph_eval en)
    (bindE (query (Data (CameraIndices camera_ray_bundle))
              (\<lambda>h. camera_indices en h camera_ray_bundle)) (\<lambda>image_idx.
     bindE (query (Graph (GetOutputs camera_ray_bundle))
              (\<lambda>h. get_outputs en h camera_ray_bundle)) (\<lambda>outs.
     bindE (query (Graph (LogTestImageOutputs image_idx step b outs))
              (\<lambda>h. log_test_image_outputs en h image_idx step b outs)) (\<lambda>psnr.
     thenE (graph_train en)
           (returnE psnr))))))"

text \<open>
  The evaluation reader is a finite sequence of \<^verbatim>\<open>(camera_ray_bundle, batch)\<close> pairs, read
  from its start at each call.
\<close>

definition eval_with_dataloader :: "env \<Rightarrow> (ray_bundle \<times> batch) list \<Rightarrow> int \<Rightarrow> unit proc" where
  "eval_with_dataloader en dataloader step =
     thenE (enter (Method (EvalWithDataloader step)))
           (forE dataloader (\<lambda>(camera_ray_bundle, b).
              thenE (test_image en camera_ray_bundle b step) (returnE ())))"

text \<open>
  \<^verbatim>\<open>random.sample(range(n), k=10)\<close> raises \<^verbatim>\<open>ValueError\<close> when fewer than ten images exist.
  Reading an image and its camera is part of the \<open>DrawCameraFrustum\<close> call.
\<close>

definition draw_scene_in_viewer :: "env \<Rightarrow> unit proc" where
  "draw_scene_in_viewer en =
     thenE (enter (Method DrawSceneInViewer))
    (bindE (query (Data (RandomSample (train_dataset_len en) 10))
              (\<lambda>h. if train_dataset_len en < 10 then Inl ValueError
                    else Inr (random_sample en h (train_dataset_len en) 10))) (\<lambda>indices.
     thenE (forE indices (\<lambda>idx. call en (Viewer (DrawCameraFrustum idx))))
           (call en (Viewer DrawAabb))))"

text \<open>
  Lines 258 to 270 (fetching the viewer's camera message, decoding it and building the
  ray bundle) are the one call \<open>ViewerCamera\<close>.
\<close>

definition render_image_in_viewer :: "env \<Rightarrow> outputs proc" where
  "render_image_in_viewer en =
     thenE (enter (Method RenderImageInViewer))
    (bindE (query (Viewer ViewerCamera) (viewer_camera en)) (\<lambda>camera_ray_bundle.
     thenE (graph_eval en)
    (bindE (query (Graph (GetOutputs camera_ray_bundle))
              (\<lambda>h. get_outputs en h camera_ray_bundle)) (\<lambda>outs.
     thenE (graph_train en)
    (bindE (liftE (dict_get outs (if ''rgb'' \<in> set (map fst outs) then ''rgb'' else ''rgb_fine''))) (\<lambda>image.
     thenE (call en (Viewer (SetImage image)))
           (returnE outs)))))))"

subsection \<open>\<^verbatim>\<open>_write_out_storage\<close> and \<^verbatim>\<open>train\<close>\<close>

definition write_out_cond :: "config \<Rightarrow> int \<Rightarrow> exn + bool" where
  "write_out_cond cfg step =
     orE (mod_is_zero step (steps_per_log (logging cfg)))
    (orE (cadence_hit (steps_per_save (trainer cfg)) step)
    (orE (mod_is_zero step (steps_per_test (trainer cfg)))
         (Inr (step = max_num_iterations (trainer cfg)))))"

definition write_out_storage :: "config \<Rightarrow> env \<Rightarrow> int \<Rightarrow> unit proc" where
  "write_out_storage cfg en step =
     thenE (enter (Method (WriteOutStorage step)))
    (bindE (liftE (write_out_cond cfg step)) (\<lambda>c.
     whenE c (call en (Writer WriterWriteOutStorage))))"

text \<open>The four conditions of the loop body, lines 124 to 135.\<close>

definition log_cond :: "config \<Rightarrow> int \<Rightarrow> exn + bool" where
  "log_cond cfg step = andE (Inr (step \<noteq> 0)) (mod_is_zero step (steps_per_log (logging cfg)))"

definition save_cond :: "config \<Rightarrow> int \<Rightarrow> exn + bool" where
  "save_cond cfg step = andE (Inr (step \<noteq> 0)) (cadence_hit (steps_per_save (trainer cfg)) step)"

definition render_cond :: "config \<Rightarrow> bool \<Rightarrow> int \<Rightarrow> exn + bool" where
  "render_cond cfg v step =
     andE (Inr v) (andE (Inr (step \<noteq> 0)) (cadence_hit (steps_per_render_image (viewer cfg)) step))"

definition test_cond :: "config \<Rightarrow> int \<Rightarrow> exn + bool" where
  "test_cond cfg step = mod_is_zero step (steps_per_test (trainer cfg))"

text \<open>The body of the \<^verbatim>\<open>for step in range(...)\<close> loop of \<^verbatim>\<open>train\<close>.\<close>

definition train_loop_body :: "config \<Rightarrow> env \<Rightarrow> int \<Rightarrow> unit proc" where
  "train_loop_body cfg en step =
     bindE (query (Data NextTrain) (next_train en)) (\<lambda>b.
     bindE (train_iteration en b step) (\<lambda>loss_dict.
     thenE (call en (Writer (PutScalarRaysPerSec step)))
    (thenE (bindE (liftE (log_cond cfg step)) (\<lambda>c.
              whenE c (call en (Writer (PutDict loss_dict step)))))
    (thenE (bindE (liftE (save_cond cfg step)) (\<lambda>c.
              whenE c (save_checkpoint en (model_dir (trainer cfg)) step)))
    (thenE (bindE (getE vis) (\<lambda>v. bindE (liftE (render_cond cfg v step)) (\<lambda>c.
              whenE c (thenE (render_image_in_viewer en) (returnE ())))))
    (thenE (bindE (liftE (test_cond cfg step)) (\<lambda>c.
              whenE c (bindE (getE dataloader_eval) (\<lambda>dl. eval_with_dataloader en dl step))))
           (write_out_storage cfg en step)))))))"

text \<open>\<^verbatim>\<open>range(a, b)\<close> over integers.\<close>

definition py_range :: "int \<Rightarrow> int \<Rightarrow> int list" where
  "py_range a b = [a..b - 1]"

definition train :: "config \<Rightarrow> env \<Rightarrow> unit proc" where
  "train cfg en =
     thenE (bindE (getE vis) (\<lambda>v. whenE v (draw_scene_in_viewer en)))
    (thenE (call en (Data IterTrain))
    (bindE (getE start_step) (\<lambda>start.
     thenE (forE (py_range start (start + max_num_iterations (trainer cfg))) (train_loop_body cfg en))
           (write_out_storage cfg en (max_num_iterations (trainer cfg))))))"

section \<open>Observations, schedules and properties of procedures\<close>

subsection \<open>The actions of the step loop\<close>

text \<open>
  The claims speak of the actions of \<^verbatim>\<open>train\<close>: fetching a batch, running the training
  iteration of a step, logging, saving, rendering, evaluating, and the call of
  \<^verbatim>\<open>_write_out_storage\<close> with the flush it may perform. Each is one event of the model: the
  call \<^verbatim>\<open>next(iter_dataloader_train)\<close>, the entry of \<^verbatim>\<open>train_iteration\<close>,
  \<^verbatim>\<open>writer.put_dict\<close>, the entries of \<^verbatim>\<open>_save_checkpoint\<close>, \<^verbatim>\<open>render_image_in_viewer\<close>,
  \<^verbatim>\<open>eval_with_dataloader\<close> and \<^verbatim>\<open>_write_out_storage\<close>, and \<^verbatim>\<open>writer.write_out_storage\<close>.
  \<open>actions_of\<close> keeps these events of a run, in order, and drops the others.
\<close>

datatype action = FETCH | ITERATE int | LOG int | SAVE int | RENDER | TEST int | WRITE_OUT int | FLUSH

fun action_of :: "event \<Rightarrow> action option" where
  "action_of (Data NextTrain) = Some FETCH"
| "action_of (Method (TrainIteration b step)) = Some (ITERATE step)"
| "action_of (Writer (PutDict d step)) = Some (LOG step)"
| "action_of (Method (SaveCheckpoint dir step)) = Some (SAVE step)"
| "action_of (Method RenderImageInViewer) = Some RENDER"
| "action_of (Method (EvalWithDataloader step)) = Some (TEST step)"
| "action_of (Method (WriteOutStorage step)) = Some (WRITE_OUT step)"
| "action_of (Writer WriterWriteOutStorage) = Some FLUSH"
| "action_of _ = None"

definition actions_of :: "event list \<Rightarrow> action list" where
  "actions_of evs = List.map_filter action_of evs"



fun is_cadence_action :: "action \<Rightarrow> bool" where
  "is_cadence_action FETCH = False"
| "is_cadence_action (ITERATE step) = False"
| "is_cadence_action RENDER = False"
| "is_cadence_action _ = True"

subsection \<open>The schedule of a run\<close>

text \<open>
  The actions of one pass through the loop body and of a whole run of \<^verbatim>\<open>train\<close> that
  completes, read off the conditions of the code; \<open>v\<close> says whether a viewer is attached.
  The lemmas \<open>runs_train_loop_body\<close> and \<open>train_Inr\<close> below prove that a completed run
  performs exactly these.
\<close>

definition body_schedule :: "config \<Rightarrow> bool \<Rightarrow> int \<Rightarrow> action list" where
  "body_schedule cfg v step =
     [FETCH, ITERATE step]
     @ (if log_cond cfg step = Inr True then [LOG step] else [])
     @ (if save_cond cfg step = Inr True then [SAVE step] else [])
     @ (if render_cond cfg v step = Inr True then [RENDER] else [])
     @ (if test_cond cfg step = Inr True then [TEST step] else [])
     @ [WRITE_OUT step]
     @ (if write_out_cond cfg step = Inr True then [FLUSH] else [])"

definition train_schedule :: "config \<Rightarrow> bool \<Rightarrow> int \<Rightarrow> action list" where
  "train_schedule cfg v start =
     concat (map (body_schedule cfg v)
               (py_range start (start + max_num_iterations (trainer cfg))))
     @ [WRITE_OUT (max_num_iterations (trainer cfg)), FLUSH]"

subsection \<open>The cadence rules in the words of the specification\<close>

text \<open>
  The rules of the Cadence Controller in the words of the specification (section 4.2),
  with \<open>mod\<close> of HOL; the code's conditions are \<open>log_cond\<close>, \<open>save_cond\<close> and
  \<open>test_cond\<close> above.
\<close>

definition spec_due_LOG :: "config \<Rightarrow> int \<Rightarrow> bool" where
  "spec_due_LOG cfg step \<longleftrightarrow> step \<noteq> 0 \<and> step mod steps_per_log (logging cfg) = 0"

definition spec_due_SAVE :: "config \<Rightarrow> int \<Rightarrow> bool" where
  "spec_due_SAVE cfg step \<longleftrightarrow>
     step \<noteq> 0 \<and> (case steps_per_save (trainer cfg) of None \<Rightarrow> False | Some d \<Rightarrow> step mod d = 0)"

definition spec_due_TEST :: "config \<Rightarrow> int \<Rightarrow> bool" where
  "spec_due_TEST cfg step \<longleftrightarrow> step mod steps_per_test (trainer cfg) = 0"

subsection \<open>The checkpoint to resume from\<close>

text \<open>
  The path that \<^verbatim>\<open>_load_checkpoint\<close> builds at line 158 from the resume directory \<open>d\<close>.
\<close>

definition load_path :: "config \<Rightarrow> string \<Rightarrow> string" where
  "load_path cfg d = path_join d (ckpt_name (load_step (resume_train (trainer cfg))))"

subsection \<open>Properties of procedures\<close>

text \<open>
  \<open>preserves f m\<close>: \<open>m\<close> leaves the attribute \<open>f\<close> as it was, however it ends.
  \<open>emits m A\<close>: the actions of \<open>m\<close> are \<open>A\<close>, however it ends.
  \<open>runs m A\<close>: when \<open>m\<close> returns, its actions were \<open>A\<close> (which may depend on whether a
  viewer is attached) and the viewer attribute is unchanged.
  \<open>needs m Q\<close>: \<open>m\<close> returns only if \<open>Q\<close> holds.
  \<open>ensures m Q\<close>: when \<open>m\<close> returns, \<open>Q\<close> holds of the object.
  \<open>stable Q m\<close>: when \<open>m\<close> returns, it has kept \<open>Q\<close>.
  \<open>completes m P\<close>: \<open>m\<close> returns, from every history and object, a value with \<open>P\<close>;
  \<open>finishes m\<close>: \<open>m\<close> returns.
\<close>

definition preserves :: "(trainer_obj \<Rightarrow> 'b) \<Rightarrow> 'a proc \<Rightarrow> bool" where
  "preserves f m = (\<forall>h s r evs s'. m h s = (r, evs, s') \<longrightarrow> f s' = f s)"

definition emits :: "'a proc \<Rightarrow> action list \<Rightarrow> bool" where
  "emits m A = (\<forall>h s r evs s'. m h s = (r, evs, s') \<longrightarrow> actions_of evs = A)"

definition runs :: "'a proc \<Rightarrow> (bool \<Rightarrow> action list) \<Rightarrow> bool" where
  "runs m A = (\<forall>h s x evs s'. m h s = (Inr x, evs, s') \<longrightarrow> actions_of evs = A (vis s) \<and> vis s' = vis s)"

definition needs :: "'a proc \<Rightarrow> bool \<Rightarrow> bool" where
  "needs m Q = (\<forall>h s x evs s'. m h s = (Inr x, evs, s') \<longrightarrow> Q)"

definition ensures :: "'a proc \<Rightarrow> (trainer_obj \<Rightarrow> bool) \<Rightarrow> bool" where
  "ensures m Q = (\<forall>h s x evs s'. m h s = (Inr x, evs, s') \<longrightarrow> Q s')"

definition stable :: "(trainer_obj \<Rightarrow> bool) \<Rightarrow> 'a proc \<Rightarrow> bool" where
  "stable Q m = (\<forall>h s x evs s'. m h s = (Inr x, evs, s') \<longrightarrow> Q s \<longrightarrow> Q s')"

definition completes :: "'a proc \<Rightarrow> ('a \<Rightarrow> bool) \<Rightarrow> bool" where
  "completes m P = (\<forall>h s. \<exists>x evs s'. m h s = (Inr x, evs, s') \<and> P x)"

definition finishes :: "'a proc \<Rightarrow> bool" where
  "finishes m = completes m (\<lambda>_. True)"

subsection \<open>Collaborators that do not raise\<close>

text \<open>
  No call raises; the forward pass returns a loss dictionary with an \<^verbatim>\<open>aggregated_loss\<close>
  entry and a rendering returns outputs with an \<^verbatim>\<open>rgb\<close> or an \<^verbatim>\<open>rgb_fine\<close> entry.
\<close>

definition cooperative :: "env \<Rightarrow> bool" where
  "cooperative en \<longleftrightarrow>
     (\<forall>h ev. fails en h ev = None) \<and>
     (\<forall>h. \<exists>b. next_train en h = Inr b) \<and>
     (\<forall>h b. \<exists>d. forward en h b = Inr d \<and> ''aggregated_loss'' \<in> set (map fst d)) \<and>
     (\<forall>h r. \<exists>outs. get_outputs en h r = Inr outs \<and>
        (''rgb'' \<in> set (map fst outs) \<or> ''rgb_fine'' \<in> set (map fst outs))) \<and>
     (\<forall>h r. \<exists>i. camera_indices en h r = Inr i) \<and>
     (\<forall>h i st b outs. \<exists>p. log_test_image_outputs en h i st b outs = Inr p) \<and>
     (\<forall>h. \<exists>r. viewer_camera en h = Inr r)"

subsection \<open>Concrete collaborators, objects and configurations\<close>

text \<open>
  \<open>quiet_env\<close> never raises. \<open>lossless_env\<close> returns loss dictionaries without
  \<^verbatim>\<open>aggregated_loss\<close>, \<open>scoring_fails_env\<close> raises in \<^verbatim>\<open>log_test_image_outputs\<close>, and
  \<open>no_file_env\<close> has no file on disk.
\<close>

definition quiet_env :: env where
  "quiet_env =
     \<lparr> fails = (\<lambda>h ev. None),
       next_train = (\<lambda>h. Inr (length h)),
       forward = (\<lambda>h b. Inr [(''rgb_loss'', Blob 1), (''aggregated_loss'', Blob 2)]),
       get_outputs = (\<lambda>h r. Inr [(''rgb_fine'', Blob 3)]),
       camera_indices = (\<lambda>h r. Inr 0),
       log_test_image_outputs = (\<lambda>h i st b outs. Inr (Blob 4)),
       viewer_camera = (\<lambda>h. Inr 0),
       path_exists = (\<lambda>h p. True),
       torch_load = (\<lambda>h p. Inr \<lparr>ckpt_step = 7, ckpt_model = Blob 5, ckpt_optimizers = []\<rparr>),
       dataset_eval = (\<lambda>h t. Inr [(0, 0)]),
       graph_callbacks = (\<lambda>h. Inr [0]),
       train_dataset_len = 12,
       random_sample = (\<lambda>h n k. [0..<k]),
       is_main_process = True \<rparr>"

definition lossless_env :: env where
  "lossless_env = quiet_env\<lparr>forward := (\<lambda>h b. Inr [(''rgb_loss'', Blob 1)])\<rparr>"


definition no_file_env :: env where
  "no_file_env = quiet_env\<lparr>path_exists := (\<lambda>h p. False)\<rparr>"

text \<open>
  A trainer object as \<^verbatim>\<open>setup\<close> leaves it, without and with a viewer.
\<close>

definition ready_obj :: trainer_obj where
  "ready_obj =
     \<lparr> local_rank = 0, world_size = 1, device = ''cuda:0'', start_step = 0, vis = False,
       dataloader_eval = [(0, 0)], training = True, callbacks = [0], wrapped = False \<rparr>"


text \<open>
  Configurations: \<open>make_config n spl sps spt\<close> has the four cadence settings given, no
  viewer and no resume directory; \<open>busy_config\<close> makes every periodic action due at step
  2; \<open>resume_config\<close> resumes from step 7 of the directory \<^verbatim>\<open>ckpts\<close>.
\<close>

definition make_config :: "int \<Rightarrow> int \<Rightarrow> int option \<Rightarrow> int \<Rightarrow> config" where
  "make_config n spl sps spt =
     \<lparr> trainer = \<lparr> max_num_iterations = n, steps_per_save = sps, steps_per_test = spt,
                   model_dir = ''outputs'', resume_train = \<lparr> load_dir = None, load_step = 0 \<rparr> \<rparr>,
       logging = \<lparr> steps_per_log = spl \<rparr>,
       viewer = \<lparr> enable = False, zmq_url = '''', steps_per_render_image = None \<rparr> \<rparr>"


definition resume_config :: config where
  "resume_config =
     \<lparr> trainer = \<lparr> max_num_iterations = 3, steps_per_save = Some 2, steps_per_test = 2,
                   model_dir = ''outputs'',
                   resume_train = \<lparr> load_dir = Some ''ckpts'', load_step = 7 \<rparr> \<rparr>,
       logging = \<lparr> steps_per_log = 2 \<rparr>,
       viewer = \<lparr> enable = False, zmq_url = '''', steps_per_render_image = None \<rparr> \<rparr>"

section \<open>Lemmas\<close>

subsection \<open>Actions of a list of events; sequencing\<close>

lemma actions_of_Nil [simp]: "actions_of [] = []"
  by (simp add: actions_of_def)

lemma actions_of_Cons [simp]:
  "actions_of (ev # evs) = (case action_of ev of None \<Rightarrow> actions_of evs | Some a \<Rightarrow> a # actions_of evs)"
  by (simp add: actions_of_def split: option.split)

lemma actions_of_append [simp]: "actions_of (xs @ ys) = actions_of xs @ actions_of ys"
  by (simp add: actions_of_def map_filter_def)

lemma bindE_cases:
  "bindE m f h s = (r, evs, s'') \<Longrightarrow>
     (\<exists>e. m h s = (Inl e, evs, s'') \<and> r = Inl e) \<or>
     (\<exists>x evs1 s' evs2. m h s = (Inr x, evs1, s') \<and> f x (h @ evs1) s' = (r, evs2, s'') \<and> evs = evs1 @ evs2)"
  by (auto simp: bindE_def split: prod.splits sum.splits)

lemma bindE_Inr:
  "bindE m f h s = (Inr y, evs, s'') \<Longrightarrow>
     \<exists>x evs1 s' evs2. m h s = (Inr x, evs1, s') \<and> f x (h @ evs1) s' = (Inr y, evs2, s'') \<and> evs = evs1 @ evs2"
  by (auto dest: bindE_cases)

subsection \<open>Attributes that a procedure leaves alone\<close>

lemma preserves_returnE: "preserves f (returnE x)" by (simp add: preserves_def returnE_def)

lemma preserves_raiseE: "preserves f (raiseE x)" by (simp add: preserves_def raiseE_def)

lemma preserves_liftE: "preserves f (liftE x)" by (simp add: preserves_def liftE_def)

lemma preserves_getE: "preserves f (getE g)" by (simp add: preserves_def getE_def)

lemma preserves_enter: "preserves f (enter ev)" by (simp add: preserves_def enter_def)

lemma preserves_query: "preserves f (query ev orc)" by (simp add: preserves_def query_def)

lemma preserves_call: "preserves f (call en ev)" by (simp add: call_def preserves_query)

lemma preserves_modifyE: "(\<And>s. f (u s) = f s) \<Longrightarrow> preserves f (modifyE u)"
  by (simp add: preserves_def modifyE_def)

lemma preserves_bindE: "preserves f m \<Longrightarrow> (\<And>x. preserves f (g x)) \<Longrightarrow> preserves f (bindE m g)"
  unfolding preserves_def by (metis bindE_cases)

lemma preserves_thenE: "preserves f m \<Longrightarrow> preserves f k \<Longrightarrow> preserves f (thenE m k)"
  by (simp add: thenE_def preserves_bindE)

lemma preserves_whenE: "(c \<Longrightarrow> preserves f m) \<Longrightarrow> preserves f (whenE c m)"
  by (simp add: whenE_def preserves_returnE)

lemma preserves_forE: "(\<And>x. preserves f (g x)) \<Longrightarrow> preserves f (forE xs g)"
  by (induction xs) (simp_all add: preserves_returnE preserves_thenE)

lemma preserves_if: "(c \<Longrightarrow> preserves f a) \<Longrightarrow> (\<not> c \<Longrightarrow> preserves f b) \<Longrightarrow> preserves f (if c then a else b)"
  by simp

lemma preserves_case_option:
  "preserves f a \<Longrightarrow> (\<And>d. preserves f (b d)) \<Longrightarrow> preserves f (case x of None \<Rightarrow> a | Some d \<Rightarrow> b d)"
  by (cases x) simp_all

lemma preserves_case_prod: "(\<And>a b. preserves f (g a b)) \<Longrightarrow> preserves f (case p of (a, b) \<Rightarrow> g a b)"
  by (cases p) simp

lemma preserves_Let: "(\<And>x. preserves f (g x)) \<Longrightarrow> preserves f (Let v g)"
  by simp

lemmas preserves_intros =
  preserves_returnE preserves_raiseE preserves_liftE preserves_getE preserves_enter
  preserves_query preserves_call preserves_modifyE preserves_bindE preserves_thenE
  preserves_whenE preserves_forE preserves_if preserves_case_option preserves_case_prod
  preserves_Let

lemma preserves_init_calls_device: "preserves device (init_calls cfg en)"
  unfolding init_calls_def by (intro preserves_intros) simp_all










subsection \<open>The actions of a procedure\<close>

lemma silent_returnE: "emits (returnE x) []" by (simp add: emits_def returnE_def)

lemma silent_raiseE: "emits (raiseE x) []" by (simp add: emits_def raiseE_def)

lemma silent_liftE: "emits (liftE x) []" by (simp add: emits_def liftE_def)

lemma silent_getE: "emits (getE g) []" by (simp add: emits_def getE_def)

lemma silent_modifyE: "emits (modifyE u) []" by (simp add: emits_def modifyE_def)

lemma emits_enter: "emits (enter ev) (actions_of [ev])" by (simp add: emits_def enter_def)

lemma emits_query: "emits (query ev orc) (actions_of [ev])" by (simp add: emits_def query_def)

lemma emits_call: "emits (call en ev) (actions_of [ev])" unfolding call_def by (rule emits_query)

lemma silent_query: "action_of ev = None \<Longrightarrow> emits (query ev orc) []"
  using emits_query [of ev orc] by simp

lemma silent_call: "action_of ev = None \<Longrightarrow> emits (call en ev) []"
  using emits_call [of en ev] by simp

lemma emits_bindE: "emits m A \<Longrightarrow> (\<And>x. emits (g x) []) \<Longrightarrow> emits (bindE m g) A"
  unfolding emits_def by (metis bindE_cases append_Nil2 actions_of_append)

lemma emits_thenE: "emits m A \<Longrightarrow> emits k [] \<Longrightarrow> emits (thenE m k) A"
  by (simp add: thenE_def emits_bindE)

lemma silent_whenE: "(c \<Longrightarrow> emits m []) \<Longrightarrow> emits (whenE c m) []"
  by (simp add: whenE_def silent_returnE)

lemma silent_forE: "(\<And>x. emits (g x) []) \<Longrightarrow> emits (forE xs g) []"
  by (induction xs) (simp_all add: silent_returnE emits_thenE)

lemma emits_if: "(c \<Longrightarrow> emits a A) \<Longrightarrow> (\<not> c \<Longrightarrow> emits b A) \<Longrightarrow> emits (if c then a else b) A"
  by simp

lemma emits_case_option:
  "emits a A \<Longrightarrow> (\<And>d. emits (b d) A) \<Longrightarrow> emits (case x of None \<Rightarrow> a | Some d \<Rightarrow> b d) A"
  by (cases x) simp_all

lemma emits_case_prod: "(\<And>a b. emits (g a b) A) \<Longrightarrow> emits (case p of (a, b) \<Rightarrow> g a b) A"
  by (cases p) simp

lemmas silent_intros =
  silent_returnE silent_raiseE silent_liftE silent_getE silent_modifyE silent_query silent_call
  emits_bindE emits_thenE silent_whenE silent_forE emits_if emits_case_option emits_case_prod

lemma emits_train_iteration: "emits (train_iteration en b step) [ITERATE step]"
proof -
  have "emits (enter (Method (TrainIteration b step))) [ITERATE step]"
    using emits_enter [of "Method (TrainIteration b step)"] by simp
  then show ?thesis
    unfolding train_iteration_def by (intro emits_thenE silent_intros) simp_all
qed

lemma silent_test_image: "emits (test_image en r b step) []"
proof -
  have "emits (enter (Method (TestImage r b step))) []"
    using emits_enter [of "Method (TestImage r b step)"] by simp
  then show ?thesis
    unfolding test_image_def graph_eval_def graph_train_def by (intro silent_intros) simp_all
qed

lemma emits_eval: "emits (eval_with_dataloader en dl step) [TEST step]"
proof -
  have "emits (enter (Method (EvalWithDataloader step))) [TEST step]"
    using emits_enter [of "Method (EvalWithDataloader step)"] by simp
  then show ?thesis
    unfolding eval_with_dataloader_def by (intro emits_thenE silent_intros silent_test_image)
qed

lemma emits_save: "emits (save_checkpoint en d step) [SAVE step]"
proof -
  have "emits (enter (Method (SaveCheckpoint d step))) [SAVE step]"
    using emits_enter [of "Method (SaveCheckpoint d step)"] by simp
  then show ?thesis
    unfolding save_checkpoint_def by (intro emits_thenE silent_intros) simp_all
qed

lemma emits_render: "emits (render_image_in_viewer en) [RENDER]"
proof -
  have "emits (enter (Method RenderImageInViewer)) [RENDER]"
    using emits_enter [of "Method RenderImageInViewer"] by simp
  then show ?thesis
    unfolding render_image_in_viewer_def graph_eval_def graph_train_def
    by (intro emits_thenE silent_intros) simp_all
qed

lemma silent_draw: "emits (draw_scene_in_viewer en) []"
proof -
  have "emits (enter (Method DrawSceneInViewer)) []"
    using emits_enter [of "Method DrawSceneInViewer"] by simp
  then show ?thesis
    unfolding draw_scene_in_viewer_def by (intro silent_intros) simp_all
qed

subsection \<open>Procedures that return\<close>

lemma emitsD: "emits m A \<Longrightarrow> m h s = (r, evs, s') \<Longrightarrow> actions_of evs = A"
  unfolding emits_def by blast

lemma preservesD: "preserves f m \<Longrightarrow> m h s = (r, evs, s') \<Longrightarrow> f s' = f s"
  unfolding preserves_def by blast

lemma enter_eq: "enter ev h s = (r, evs, s') \<longleftrightarrow> (Inr () = r \<and> [ev] = evs \<and> s = s')"
  by (auto simp: enter_def)

lemma liftE_eq: "liftE v h s = (r, evs, s') \<longleftrightarrow> (v = r \<and> [] = evs \<and> s = s')"
  by (auto simp: liftE_def)

lemma getE_eq: "getE f h s = (r, evs, s') \<longleftrightarrow> (Inr (f s) = r \<and> [] = evs \<and> s = s')"
  by (auto simp: getE_def)

lemma returnE_eq: "returnE x h s = (r, evs, s') \<longleftrightarrow> (Inr x = r \<and> [] = evs \<and> s = s')"
  by (auto simp: returnE_def)

lemma raiseE_eq: "raiseE e h s = (r, evs, s') \<longleftrightarrow> (Inl e = r \<and> [] = evs \<and> s = s')"
  by (auto simp: raiseE_def)

lemma modifyE_eq: "modifyE u h s = (r, evs, s') \<longleftrightarrow> (Inr () = r \<and> [] = evs \<and> u s = s')"
  by (auto simp: modifyE_def)

lemma query_eq: "query ev orc h s = (r, evs, s') \<longleftrightarrow> (orc h = r \<and> [ev] = evs \<and> s = s')"
  by (auto simp: query_def)

lemma call_Inr: "call en ev h s = (Inr u, evs, s') \<Longrightarrow> evs = [ev] \<and> s' = s"
  by (auto simp: call_def query_eq)

lemmas prim_eqs = enter_eq liftE_eq getE_eq returnE_eq raiseE_eq modifyE_eq query_eq

lemma thenE_Inr:
  "thenE m k h s = (Inr y, evs, s'') \<Longrightarrow>
     \<exists>x evs1 s' evs2. m h s = (Inr x, evs1, s') \<and> k (h @ evs1) s' = (Inr y, evs2, s'') \<and> evs = evs1 @ evs2"
  unfolding thenE_def by (rule bindE_Inr)

lemma runsD: "runs m A \<Longrightarrow> m h s = (Inr x, evs, s') \<Longrightarrow> actions_of evs = A (vis s) \<and> vis s' = vis s"
  unfolding runs_def by blast

lemma runs_emits: "emits m A \<Longrightarrow> preserves vis m \<Longrightarrow> runs m (\<lambda>_. A)"
  unfolding runs_def emits_def preserves_def by blast

lemma runs_bindE:
  assumes "runs m A" and "\<And>x. runs (g x) B"
  shows "runs (bindE m g) (\<lambda>v. A v @ B v)"
  unfolding runs_def
proof (intro allI impI)
  fix h s y evs s''
  assume "bindE m g h s = (Inr y, evs, s'')"
  then obtain x evs1 s' evs2 where 1: "m h s = (Inr x, evs1, s')"
    and 2: "g x (h @ evs1) s' = (Inr y, evs2, s'')" and 3: "evs = evs1 @ evs2"
    by (blast dest: bindE_Inr)
  from runsD [OF assms(1) 1] runsD [OF assms(2) 2] 3
  show "actions_of evs = A (vis s) @ B (vis s) \<and> vis s'' = vis s" by simp
qed

lemma runs_thenE: "runs m A \<Longrightarrow> runs k B \<Longrightarrow> runs (thenE m k) (\<lambda>v. A v @ B v)"
  unfolding thenE_def by (rule runs_bindE)

lemma runs_cond:
  assumes "runs m A"
  shows "runs (bindE (liftE c) (\<lambda>b. whenE b m)) (\<lambda>v. if c = Inr True then A v else [])"
  unfolding runs_def
proof (intro allI impI)
  fix h s y evs s''
  assume "bindE (liftE c) (\<lambda>b. whenE b m) h s = (Inr y, evs, s'')"
  then obtain b where b: "c = Inr b" and w: "whenE b m h s = (Inr y, evs, s'')"
    by (auto dest!: bindE_Inr simp: liftE_eq)
  show "actions_of evs = (if c = Inr True then A (vis s) else []) \<and> vis s'' = vis s"
  proof (cases b)
    case True
    with w have "m h s = (Inr y, evs, s'')" by (simp add: whenE_def)
    from runsD [OF assms this] b True show ?thesis by simp
  next
    case False
    with w b show ?thesis by (auto simp: whenE_def returnE_eq)
  qed
qed

lemma runs_getE: "(\<And>x. runs (g x) B) \<Longrightarrow> runs (bindE (getE f) g) B"
  unfolding runs_def by (auto dest!: bindE_Inr simp: getE_eq)

lemma runs_getE_vis: "(\<And>x. runs (g x) (B x)) \<Longrightarrow> runs (bindE (getE vis) g) (\<lambda>v. B v v)"
  unfolding runs_def by (auto dest!: bindE_Inr simp: getE_eq)

lemma runs_forE:
  assumes "\<And>x. runs (g x) (B x)"
  shows "runs (forE xs g) (\<lambda>v. concat (map (\<lambda>x. B x v) xs))"
proof (induction xs)
  case Nil
  show ?case by (simp add: runs_def returnE_eq)
next
  case (Cons x xs)
  from runs_thenE [OF assms [of x] Cons] show ?case by simp
qed

lemma runs_weaken: "runs m A \<Longrightarrow> A = B \<Longrightarrow> runs m B"
  by simp

subsection \<open>The schedule of the loop body and of a run\<close>

lemma write_out_storage_Inr:
  assumes "write_out_storage cfg en step h s = (Inr u, evs, s')"
  shows "\<exists>c. write_out_cond cfg step = Inr c \<and>
             actions_of evs = WRITE_OUT step # (if c then [FLUSH] else []) \<and> s' = s"
proof -
  from assms obtain evs2 where
    b: "bindE (liftE (write_out_cond cfg step)) (\<lambda>c. whenE c (call en (Writer WriterWriteOutStorage)))
          (h @ [Method (WriteOutStorage step)]) s = (Inr u, evs2, s')"
    and e: "evs = [Method (WriteOutStorage step)] @ evs2"
    unfolding write_out_storage_def by (auto dest!: thenE_Inr simp: enter_eq)
  from b obtain c where c: "write_out_cond cfg step = Inr c"
    and w: "whenE c (call en (Writer WriterWriteOutStorage)) (h @ [Method (WriteOutStorage step)]) s = (Inr u, evs2, s')"
    by (auto dest!: bindE_Inr simp: liftE_eq)
  from w have "actions_of evs2 = (if c then [FLUSH] else []) \<and> s' = s"
    by (auto simp: whenE_def returnE_eq dest!: call_Inr split: if_splits)
  with c e show ?thesis by simp
qed

lemma runs_write_out_storage:
  "runs (write_out_storage cfg en step)
     (\<lambda>_. WRITE_OUT step # (if write_out_cond cfg step = Inr True then [FLUSH] else []))"
  unfolding runs_def by (auto dest!: write_out_storage_Inr)

lemma preserves_vis_test_image: "preserves vis (test_image en r b step)"
  unfolding test_image_def graph_eval_def graph_train_def by (intro preserves_intros) simp_all

lemma preserves_vis_eval: "preserves vis (eval_with_dataloader en dl step)"
  unfolding eval_with_dataloader_def by (intro preserves_intros preserves_vis_test_image)

lemma preserves_vis_render: "preserves vis (render_image_in_viewer en)"
  unfolding render_image_in_viewer_def graph_eval_def graph_train_def by (intro preserves_intros) simp_all

lemma preserves_any_train_iteration: "preserves f (train_iteration en b step)"
  unfolding train_iteration_def by (intro preserves_intros)

lemma preserves_any_save: "preserves f (save_checkpoint en d step)"
  unfolding save_checkpoint_def by (intro preserves_intros)

lemma preserves_any_draw: "preserves f (draw_scene_in_viewer en)"
  unfolding draw_scene_in_viewer_def by (intro preserves_intros)

lemma runs_train_loop_body:
  "runs (train_loop_body cfg en step) (\<lambda>v. body_schedule cfg v step)"
proof -
  have fetch: "runs (query (Data NextTrain) (next_train en)) (\<lambda>_. [FETCH])"
    using runs_emits [OF emits_query preserves_query, of "Data NextTrain" "next_train en"] by simp
  have iter: "\<And>b. runs (train_iteration en b step) (\<lambda>_. [ITERATE step])"
    by (rule runs_emits [OF emits_train_iteration preserves_any_train_iteration])
  have put: "runs (call en (Writer (PutScalarRaysPerSec step))) (\<lambda>_. [])"
    using runs_emits [OF emits_call preserves_call, of en "Writer (PutScalarRaysPerSec step)"] by simp
  have log: "\<And>d. runs (bindE (liftE (log_cond cfg step)) (\<lambda>c. whenE c (call en (Writer (PutDict d step)))))
      (\<lambda>v. if log_cond cfg step = Inr True then [LOG step] else [])"
  proof -
    fix d
    have "runs (call en (Writer (PutDict d step))) (\<lambda>_. [LOG step])"
      using runs_emits [OF emits_call preserves_call, of en "Writer (PutDict d step)"] by simp
    then show "runs (bindE (liftE (log_cond cfg step)) (\<lambda>c. whenE c (call en (Writer (PutDict d step)))))
      (\<lambda>v. if log_cond cfg step = Inr True then [LOG step] else [])"
      by (rule runs_cond)
  qed
  have save: "runs (bindE (liftE (save_cond cfg step)) (\<lambda>c.
        whenE c (save_checkpoint en (model_dir (trainer cfg)) step)))
      (\<lambda>v. if save_cond cfg step = Inr True then [SAVE step] else [])"
    by (rule runs_cond [OF runs_emits [OF emits_save preserves_any_save]])
  have rend0: "runs (thenE (render_image_in_viewer en) (returnE ())) (\<lambda>_. [RENDER])"
    by (rule runs_emits [OF emits_thenE [OF emits_render silent_returnE]
          preserves_thenE [OF preserves_vis_render preserves_returnE]])
  have rend: "runs (bindE (getE vis) (\<lambda>v. bindE (liftE (render_cond cfg v step)) (\<lambda>c.
        whenE c (thenE (render_image_in_viewer en) (returnE ())))))
      (\<lambda>v. if render_cond cfg v step = Inr True then [RENDER] else [])"
    by (rule runs_getE_vis [where B = "\<lambda>x v. if render_cond cfg x step = Inr True then [RENDER] else []"])
       (rule runs_cond [OF rend0])
  have test: "runs (bindE (liftE (test_cond cfg step)) (\<lambda>c.
        whenE c (bindE (getE dataloader_eval) (\<lambda>dl. eval_with_dataloader en dl step))))
      (\<lambda>v. if test_cond cfg step = Inr True then [TEST step] else [])"
    by (rule runs_cond [OF runs_getE [OF runs_emits [OF emits_eval preserves_vis_eval]]])
  note wos = runs_write_out_storage [of cfg en step]
  note tail = runs_thenE [OF put runs_thenE [OF log runs_thenE [OF save runs_thenE [OF rend runs_thenE [OF test wos]]]]]
  have "runs (train_loop_body cfg en step)
     (\<lambda>v. [FETCH] @ [ITERATE step] @ [] @ (if log_cond cfg step = Inr True then [LOG step] else []) @
       (if save_cond cfg step = Inr True then [SAVE step] else []) @
       (if render_cond cfg v step = Inr True then [RENDER] else []) @
       (if test_cond cfg step = Inr True then [TEST step] else []) @
       WRITE_OUT step # (if write_out_cond cfg step = Inr True then [FLUSH] else []))"
    unfolding train_loop_body_def
    by (rule runs_bindE [OF fetch]) (rule runs_bindE [OF iter], rule tail)
  then show ?thesis
    by (rule runs_weaken) (simp add: body_schedule_def fun_eq_iff)
qed

lemma write_out_cond_max:
  "write_out_cond cfg (max_num_iterations (trainer cfg)) = Inr c \<Longrightarrow> c"
  by (auto simp: write_out_cond_def orE_def mod_is_zero_def cadence_hit_def
        split: sum.splits if_splits option.splits)

lemma train_Inr:
  assumes "train cfg en h s = (Inr u, evs, s')"
  shows "actions_of evs = train_schedule cfg (vis s) (start_step s)"
proof -
  let ?n = "max_num_iterations (trainer cfg)"
  let ?A = "bindE (getE vis) (\<lambda>v. whenE v (draw_scene_in_viewer en))"
  let ?B = "call en (Data IterTrain)"
  let ?C = "\<lambda>start. thenE (forE (py_range start (start + ?n)) (train_loop_body cfg en))
                          (write_out_storage cfg en ?n)"
  have eA: "emits ?A []" by (intro silent_intros silent_draw)
  have pA: "preserves f ?A" for f :: "trainer_obj \<Rightarrow> 'z" by (intro preserves_intros preserves_any_draw)
  have eB: "emits ?B []" by (intro silent_intros) simp
  have pB: "preserves f ?B" for f :: "trainer_obj \<Rightarrow> 'z" by (intro preserves_intros)
  have rC: "runs (?C start) (\<lambda>v. concat (map (\<lambda>x. body_schedule cfg v x) (py_range start (start + ?n)))
      @ WRITE_OUT ?n # (if write_out_cond cfg ?n = Inr True then [FLUSH] else []))" for start
    by (rule runs_thenE [OF runs_forE [OF runs_train_loop_body] runs_write_out_storage])
  from assms obtain x1 e1 s1 e1' where
    1: "?A h s = (Inr x1, e1, s1)" and
    2: "thenE ?B (bindE (getE start_step) ?C) (h @ e1) s1 = (Inr u, e1', s')" and
    3: "evs = e1 @ e1'"
    unfolding train_def by (blast dest: thenE_Inr)
  from 2 obtain x2 e2 s2 e2' where
    4: "?B (h @ e1) s1 = (Inr x2, e2, s2)" and
    5: "bindE (getE start_step) ?C ((h @ e1) @ e2) s2 = (Inr u, e2', s')" and
    6: "e1' = e2 @ e2'"
    by (blast dest: thenE_Inr)
  from 5 have 7: "?C (start_step s2) ((h @ e1) @ e2) s2 = (Inr u, e2', s')"
    by (auto dest!: bindE_Inr simp: getE_eq)
  have "vis s1 = vis s" "start_step s1 = start_step s"
    using preservesD [OF pA [of vis] 1] preservesD [OF pA [of start_step] 1] by simp_all
  moreover have "vis s2 = vis s1" "start_step s2 = start_step s1"
    using preservesD [OF pB [of vis] 4] preservesD [OF pB [of start_step] 4] by simp_all
  ultimately have v: "vis s2 = vis s" "start_step s2 = start_step s" by simp_all
  have a1: "actions_of e1 = []" by (rule emitsD [OF eA 1])
  have a2: "actions_of e2 = []" by (rule emitsD [OF eB 4])
  from 7 obtain x3 e3 s3 e3' where
    8: "write_out_storage cfg en ?n (((h @ e1) @ e2) @ e3) s3 = (Inr u, e3', s')"
    by (blast dest: thenE_Inr)
  from write_out_storage_Inr [OF 8] obtain c where "write_out_cond cfg ?n = Inr c" by blast
  then have c: "write_out_cond cfg ?n = Inr True"
    using write_out_cond_max [of cfg c] by simp
  from runsD [OF rC 7] c v have "actions_of e2' = train_schedule cfg (vis s) (start_step s)"
    by (simp add: train_schedule_def)
  with 3 6 a1 a2 show ?thesis by simp
qed



subsection \<open>A run completes when nothing raises\<close>

lemma cooperativeD:
  assumes "cooperative en"
  shows "fails en h ev = None"
    and "\<exists>b. next_train en h = Inr b"
    and "\<exists>d. forward en h b = Inr d \<and> ''aggregated_loss'' \<in> set (map fst d)"
    and "\<exists>outs. get_outputs en h r = Inr outs \<and>
          (''rgb'' \<in> set (map fst outs) \<or> ''rgb_fine'' \<in> set (map fst outs))"
    and "\<exists>outs. get_outputs en h r = Inr outs"
    and "\<exists>i. camera_indices en h r = Inr i"
    and "\<exists>p. log_test_image_outputs en h i st b outs = Inr p"
    and "\<exists>r. viewer_camera en h = Inr r"
  using assms unfolding cooperative_def by blast+

lemma completes_bindE:
  "completes m P \<Longrightarrow> (\<And>x. P x \<Longrightarrow> completes (g x) Q) \<Longrightarrow> completes (bindE m g) Q"
  unfolding completes_def bindE_def
proof (intro allI)
  fix h s
  assume m: "\<forall>h s. \<exists>x evs s'. m h s = (Inr x, evs, s') \<and> P x"
    and g: "\<And>x. P x \<Longrightarrow> \<forall>h s. \<exists>xa evs s'. g x h s = (Inr xa, evs, s') \<and> Q xa"
  from m obtain x evs s' where 1: "m h s = (Inr x, evs, s')" and 2: "P x" by blast
  from g [OF 2] obtain y evs' s'' where 3: "g x (h @ evs) s' = (Inr y, evs', s'')" and 4: "Q y" by blast
  from 1 3 4 show "\<exists>x evs s'.
      (case m h s of (Inl e, evs, s') \<Rightarrow> (Inl e, evs, s')
       | (Inr x, evs, s') \<Rightarrow> (case g x (h @ evs) s' of (r, evs', s'') \<Rightarrow> (r, evs @ evs', s''))) =
      (Inr x, evs, s') \<and> Q x" by simp
qed

lemma finishes_bindE: "finishes m \<Longrightarrow> (\<And>x. finishes (g x)) \<Longrightarrow> finishes (bindE m g)"
  unfolding finishes_def by (rule completes_bindE)

lemma finishes_bindE_with: "completes m P \<Longrightarrow> (\<And>x. P x \<Longrightarrow> finishes (g x)) \<Longrightarrow> finishes (bindE m g)"
  unfolding finishes_def by (rule completes_bindE)

lemma finishes_thenE: "finishes m \<Longrightarrow> finishes k \<Longrightarrow> finishes (thenE m k)"
  unfolding thenE_def by (rule finishes_bindE)

lemma finishes_returnE: "finishes (returnE x)" by (simp add: finishes_def completes_def returnE_def)

lemma finishes_getE: "finishes (getE f)" by (simp add: finishes_def completes_def getE_def)

lemma finishes_modifyE: "finishes (modifyE u)" by (simp add: finishes_def completes_def modifyE_def)

lemma finishes_enter: "finishes (enter ev)" by (simp add: finishes_def completes_def enter_def)

lemma finishes_call: "cooperative en \<Longrightarrow> finishes (call en ev)"
  by (simp add: finishes_def completes_def call_def query_def cooperativeD(1))

lemma completes_query: "(\<And>h. \<exists>x. orc h = Inr x \<and> P x) \<Longrightarrow> completes (query ev orc) P"
  by (simp add: completes_def query_def)

lemma finishes_query: "(\<And>h. \<exists>x. orc h = Inr x) \<Longrightarrow> finishes (query ev orc)"
  by (simp add: finishes_def completes_def query_def)

lemma finishes_liftE: "v = Inr x \<Longrightarrow> finishes (liftE v)"
  by (simp add: finishes_def completes_def liftE_def)

lemma finishes_whenE: "(c \<Longrightarrow> finishes m) \<Longrightarrow> finishes (whenE c m)"
  by (simp add: whenE_def finishes_returnE)

lemma finishes_forE: "(\<And>x. finishes (g x)) \<Longrightarrow> finishes (forE xs g)"
  by (induction xs) (simp_all add: finishes_returnE finishes_thenE)

lemma finishes_case_prod: "(\<And>a b. finishes (g a b)) \<Longrightarrow> finishes (case p of (a, b) \<Rightarrow> g a b)"
  by (cases p) simp

lemma finishesD: "finishes m \<Longrightarrow> \<exists>x evs s'. m h s = (Inr x, evs, s')"
  by (simp add: finishes_def completes_def)

lemmas finishes_intros =
  finishes_bindE finishes_thenE finishes_returnE finishes_getE finishes_modifyE finishes_enter
  finishes_call finishes_whenE finishes_forE finishes_case_prod

lemma dict_get_member: "k \<in> set (map fst d) \<Longrightarrow> \<exists>v. dict_get d k = Inr v"
  by (cases "map_of d k") (auto simp: dict_get_def map_of_eq_None_iff)

lemma finishes_train_iteration:
  assumes "cooperative en"
  shows "finishes (train_iteration en b step)"
proof -
  have fw: "completes (query (Graph (Forward b)) (\<lambda>h. forward en h b))
              (\<lambda>d. ''aggregated_loss'' \<in> set (map fst d))"
    by (intro completes_query cooperativeD(3) assms)
  have rest: "finishes (bindE (liftE (dict_get d ''aggregated_loss'')) (\<lambda>loss.
       thenE (call en (Optimizers ZeroGradAll))
      (thenE (call en (Graph (Backward loss)))
      (thenE (call en (Optimizers OptimizerStepAll))
      (thenE (call en (Optimizers (SchedulerStepAll step)))
      (thenE (bindE (getE callbacks) (\<lambda>cbs. forE cbs (\<lambda>c. call en (Graph (AfterStep c step)))))
             (returnE d)))))))"
    if "''aggregated_loss'' \<in> set (map fst d)" for d
  proof -
    from dict_get_member [OF that] obtain v where "dict_get d ''aggregated_loss'' = Inr v" by blast
    then have "finishes (liftE (dict_get d ''aggregated_loss''))" by (rule finishes_liftE)
    then show ?thesis using assms by (intro finishes_intros) simp_all
  qed
  show ?thesis
    unfolding train_iteration_def
    by (intro finishes_thenE finishes_enter finishes_bindE_with [OF fw] rest)
qed

lemma finishes_graph_eval: "cooperative en \<Longrightarrow> finishes (graph_eval en)"
  unfolding graph_eval_def by (intro finishes_intros) simp_all

lemma finishes_graph_train: "cooperative en \<Longrightarrow> finishes (graph_train en)"
  unfolding graph_train_def by (intro finishes_intros) simp_all

lemma finishes_test_image:
  assumes "cooperative en"
  shows "finishes (test_image en r b step)"
  unfolding test_image_def using assms
  by (intro finishes_intros finishes_graph_eval finishes_graph_train finishes_query cooperativeD)

lemma finishes_eval: "cooperative en \<Longrightarrow> finishes (eval_with_dataloader en dl step)"
  unfolding eval_with_dataloader_def
  by (intro finishes_intros finishes_test_image) simp_all

lemma finishes_save: "cooperative en \<Longrightarrow> finishes (save_checkpoint en d step)"
  unfolding save_checkpoint_def
  by (intro finishes_intros finishes_query) simp_all

lemma finishes_draw:
  assumes "cooperative en" and "10 \<le> train_dataset_len en"
  shows "finishes (draw_scene_in_viewer en)"
  unfolding draw_scene_in_viewer_def using assms
  by (intro finishes_intros finishes_query) simp_all

lemma finishes_render:
  assumes "cooperative en"
  shows "finishes (render_image_in_viewer en)"
proof -
  have go: "completes (query (Graph (GetOutputs r)) (\<lambda>h. get_outputs en h r))
      (\<lambda>outs. ''rgb'' \<in> set (map fst outs) \<or> ''rgb_fine'' \<in> set (map fst outs))" for r
    by (intro completes_query cooperativeD(4) assms)
  have rest: "finishes (thenE (graph_train en)
      (bindE (liftE (dict_get outs (if ''rgb'' \<in> set (map fst outs) then ''rgb'' else ''rgb_fine''))) (\<lambda>image.
         thenE (call en (Viewer (SetImage image))) (returnE outs))))"
    if "''rgb'' \<in> set (map fst outs) \<or> ''rgb_fine'' \<in> set (map fst outs)" for outs
  proof -
    from that have "(if ''rgb'' \<in> set (map fst outs) then ''rgb'' else ''rgb_fine'') \<in> set (map fst outs)"
      by auto
    from dict_get_member [OF this] obtain v where
      "dict_get outs (if ''rgb'' \<in> set (map fst outs) then ''rgb'' else ''rgb_fine'') = Inr v" by blast
    then have "finishes (liftE (dict_get outs (if ''rgb'' \<in> set (map fst outs) then ''rgb'' else ''rgb_fine'')))"
      by (rule finishes_liftE)
    then show ?thesis using assms by (intro finishes_intros finishes_graph_train) simp_all
  qed
  have vc: "finishes (query (Viewer ViewerCamera) (viewer_camera en))"
    by (intro finishes_query cooperativeD(8) assms)
  show ?thesis
    unfolding render_image_in_viewer_def
    by (intro finishes_thenE finishes_enter finishes_bindE [OF vc] finishes_graph_eval assms
          finishes_bindE_with [OF go] rest)
qed

lemma cond_defined:
  "steps_per_log (logging cfg) \<noteq> 0 \<Longrightarrow> \<exists>c. log_cond cfg step = Inr c"
  "\<exists>c. save_cond cfg step = Inr c"
  "\<exists>c. render_cond cfg v step = Inr c"
  "steps_per_test (trainer cfg) \<noteq> 0 \<Longrightarrow> \<exists>c. test_cond cfg step = Inr c"
  "steps_per_log (logging cfg) \<noteq> 0 \<Longrightarrow> steps_per_test (trainer cfg) \<noteq> 0 \<Longrightarrow>
     \<exists>c. write_out_cond cfg step = Inr c"
  by (auto simp: log_cond_def save_cond_def render_cond_def test_cond_def write_out_cond_def
        andE_def orE_def mod_is_zero_def cadence_hit_def split: option.splits)

lemma finishes_write_out_storage:
  assumes "cooperative en" "steps_per_log (logging cfg) \<noteq> 0" "steps_per_test (trainer cfg) \<noteq> 0"
  shows "finishes (write_out_storage cfg en step)"
proof -
  from cond_defined(5) [OF assms(2,3)] obtain c where "write_out_cond cfg step = Inr c" by blast
  then have "finishes (liftE (write_out_cond cfg step))" by (rule finishes_liftE)
  then show ?thesis
    unfolding write_out_storage_def using assms(1) by (intro finishes_intros) simp_all
qed

lemma finishes_train_loop_body:
  assumes "cooperative en" "steps_per_log (logging cfg) \<noteq> 0" "steps_per_test (trainer cfg) \<noteq> 0"
  shows "finishes (train_loop_body cfg en step)"
proof -
  have 1: "finishes (liftE (log_cond cfg step))"
    using cond_defined(1) [OF assms(2)] by (blast intro: finishes_liftE)
  have 2: "finishes (liftE (save_cond cfg step))"
    using cond_defined(2) by (blast intro: finishes_liftE)
  have 3: "finishes (liftE (render_cond cfg v step))" for v
    using cond_defined(3) by (blast intro: finishes_liftE)
  have 4: "finishes (liftE (test_cond cfg step))"
    using cond_defined(4) [OF assms(3)] by (blast intro: finishes_liftE)
  have 5: "finishes (query (Data NextTrain) (next_train en))"
    by (intro finishes_query cooperativeD(2) assms(1))
  show ?thesis
    unfolding train_loop_body_def
    by (intro finishes_intros 1 2 3 4 5 finishes_train_iteration finishes_save finishes_render
          finishes_eval finishes_write_out_storage assms)
qed

lemma train_completes:
  assumes "cooperative en" "steps_per_log (logging cfg) \<noteq> 0" "steps_per_test (trainer cfg) \<noteq> 0"
    and "vis s \<Longrightarrow> 10 \<le> train_dataset_len en"
  shows "\<exists>evs s'. train cfg en h s = (Inr (), evs, s')"
proof -
  let ?A = "bindE (getE vis) (\<lambda>v. whenE v (draw_scene_in_viewer en))"
  let ?R = "thenE (call en (Data IterTrain))
    (bindE (getE start_step) (\<lambda>start.
     thenE (forE (py_range start (start + max_num_iterations (trainer cfg))) (train_loop_body cfg en))
           (write_out_storage cfg en (max_num_iterations (trainer cfg)))))"
  have R: "finishes ?R"
    by (intro finishes_intros finishes_train_loop_body finishes_write_out_storage assms)
  have "\<exists>e1 s1. ?A h s = (Inr (), e1, s1)"
  proof (cases "vis s")
    case True
    from finishesD [OF finishes_draw [OF assms(1) assms(4) [OF True]], of h s] True
    show ?thesis by (auto simp: bindE_def getE_def whenE_def)
  next
    case False
    then show ?thesis by (simp add: bindE_def getE_def whenE_def returnE_def)
  qed
  then obtain e1 s1 where 1: "?A h s = (Inr (), e1, s1)" by blast
  from finishesD [OF R, of "h @ e1" s1] obtain x e2 s2 where 2: "?R (h @ e1) s1 = (Inr x, e2, s2)"
    by blast
  from 1 2 show ?thesis by (simp add: train_def thenE_def bindE_def)
qed

lemma cooperative_quiet_env: "cooperative quiet_env"
  by (simp add: cooperative_def quiet_env_def)



subsection \<open>What a completed step implies for the configuration\<close>

lemma needsD: "needs m Q \<Longrightarrow> m h s = (Inr x, evs, s') \<Longrightarrow> Q"
  unfolding needs_def by blast

lemma needs_bindE1: "needs m Q \<Longrightarrow> needs (bindE m g) Q"
  unfolding needs_def by (blast dest: bindE_Inr)

lemma needs_bindE2: "(\<And>x. needs (g x) Q) \<Longrightarrow> needs (bindE m g) Q"
  unfolding needs_def by (blast dest: bindE_Inr)

lemma needs_thenE1: "needs m Q \<Longrightarrow> needs (thenE m k) Q"
  unfolding thenE_def by (rule needs_bindE1)

lemma needs_thenE2: "needs k Q \<Longrightarrow> needs (thenE m k) Q"
  unfolding thenE_def by (rule needs_bindE2)

lemma needs_liftE: "needs (liftE v) (\<exists>c. v = Inr c)"
  unfolding needs_def by (auto simp: liftE_eq)

lemma needs_write_out_storage:
  "needs (write_out_storage cfg en step) (\<exists>c. write_out_cond cfg step = Inr c)"
  unfolding needs_def by (blast dest: write_out_storage_Inr)

lemma train_loop_body_conds:
  assumes "train_loop_body cfg en step h s = (Inr u, evs, s')"
  shows "\<exists>c. test_cond cfg step = Inr c" and "\<exists>c. write_out_cond cfg step = Inr c"
proof -
  have "needs (train_loop_body cfg en step) (\<exists>c. test_cond cfg step = Inr c)"
    unfolding train_loop_body_def
    by (intro needs_bindE2 needs_thenE2 needs_thenE1 [where k = "write_out_storage cfg en step"]
          needs_bindE1 [OF needs_liftE])
  from needsD [OF this assms] show "\<exists>c. test_cond cfg step = Inr c" .
  have "needs (train_loop_body cfg en step) (\<exists>c. write_out_cond cfg step = Inr c)"
    unfolding train_loop_body_def
    by (rule needs_bindE2, rule needs_bindE2, (rule needs_thenE2)+, rule needs_write_out_storage)
  from needsD [OF this assms] show "\<exists>c. write_out_cond cfg step = Inr c" .
qed

lemma test_cond_Inr: "test_cond cfg step = Inr c \<Longrightarrow> steps_per_test (trainer cfg) \<noteq> 0"
  by (auto simp: test_cond_def mod_is_zero_def split: if_splits)

lemma write_out_cond_Inr: "write_out_cond cfg step = Inr c \<Longrightarrow> steps_per_log (logging cfg) \<noteq> 0"
  by (auto simp: write_out_cond_def orE_def mod_is_zero_def split: if_splits)

lemma conds_spec:
  assumes "steps_per_log (logging cfg) \<noteq> 0" and "steps_per_test (trainer cfg) \<noteq> 0"
  shows "log_cond cfg step = Inr (spec_due_LOG cfg step)"
    and "save_cond cfg step = Inr (spec_due_SAVE cfg step)"
    and "test_cond cfg step = Inr (spec_due_TEST cfg step)"
    and "write_out_cond cfg step =
           Inr (spec_due_LOG cfg step \<or> spec_due_SAVE cfg step \<or> spec_due_TEST cfg step \<or>
                step = max_num_iterations (trainer cfg))"
  using assms
  by (auto simp: log_cond_def save_cond_def test_cond_def write_out_cond_def andE_def orE_def
        mod_is_zero_def cadence_hit_def spec_due_LOG_def spec_due_SAVE_def spec_due_TEST_def
        split: option.splits)

lemma cadence_body_schedule:
  "filter is_cadence_action (body_schedule cfg v step) =
     (if log_cond cfg step = Inr True then [LOG step] else []) @
     (if save_cond cfg step = Inr True then [SAVE step] else []) @
     (if test_cond cfg step = Inr True then [TEST step] else []) @
     [WRITE_OUT step] @
     (if write_out_cond cfg step = Inr True then [FLUSH] else [])"
  by (simp add: body_schedule_def)

subsection \<open>The training iteration, the constructor and evaluation\<close>

lemma call_ok: "fails en h ev = None \<Longrightarrow> call en ev h s = (Inr (), [ev], s)"
  by (simp add: call_def query_def)

lemma forE_calls:
  assumes "\<And>h ev. fails en h ev = None"
  shows "forE xs (\<lambda>c. call en (f c)) h s = (Inr (), map f xs, s)"
proof (induction xs arbitrary: h)
  case Nil
  show ?case by (simp add: returnE_def)
next
  case (Cons x xs)
  have 1: "call en (f x) h s = (Inr (), [f x], s)"
    by (rule call_ok [OF assms])
  have 2: "forE xs (\<lambda>c. call en (f c)) (h @ [f x]) s = (Inr (), map f xs, s)"
    by (rule Cons)
  show ?case
    by (simp add: thenE_def bindE_def 1 2)
qed

lemma init_device: "device (snd (snd (init cfg en lr ws h))) = device (new_obj lr ws)"
  using preservesD [OF preserves_init_calls_device, of cfg en h "new_obj lr ws"]
  by (cases "init_calls cfg en h (new_obj lr ws)") (auto simp: init_def)

lemma ensuresD: "ensures m Q \<Longrightarrow> m h s = (Inr x, evs, s') \<Longrightarrow> Q s'"
  unfolding ensures_def by blast

lemma stableD: "stable Q m \<Longrightarrow> m h s = (Inr x, evs, s') \<Longrightarrow> Q s \<Longrightarrow> Q s'"
  unfolding stable_def by blast

lemma ensures_bindE2: "(\<And>x. ensures (g x) Q) \<Longrightarrow> ensures (bindE m g) Q"
  unfolding ensures_def by (blast dest: bindE_Inr)

lemma ensures_thenE2: "ensures k Q \<Longrightarrow> ensures (thenE m k) Q"
  unfolding thenE_def by (rule ensures_bindE2)

lemma ensures_bindE1: "ensures m Q \<Longrightarrow> (\<And>x. stable Q (g x)) \<Longrightarrow> ensures (bindE m g) Q"
  unfolding ensures_def stable_def by (blast dest: bindE_Inr)

lemma ensures_thenE1: "ensures m Q \<Longrightarrow> stable Q k \<Longrightarrow> ensures (thenE m k) Q"
  unfolding thenE_def by (rule ensures_bindE1)


lemma stable_preserves: "preserves f m \<Longrightarrow> (\<And>s s'. f s' = f s \<Longrightarrow> Q s \<Longrightarrow> Q s') \<Longrightarrow> stable Q m"
  unfolding stable_def preserves_def by blast

lemma ensures_modifyE: "(\<And>s. Q (u s)) \<Longrightarrow> ensures (modifyE u) Q"
  unfolding ensures_def by (auto simp: modifyE_eq)




subsection \<open>Loading a checkpoint\<close>

lemma load_checkpoint_absent:
  assumes "load_dir (resume_train (trainer cfg)) = Some d"
    and "\<not> path_exists en (h @ [Method LoadCheckpoint]) (load_path cfg d)"
  shows "load_checkpoint cfg en h s =
           (Inl (AssertionError (''Checkpoint '' @ load_path cfg d @ '' does not exist'')),
            [Method LoadCheckpoint, Os (PathExists (load_path cfg d))], s)"
  using assms
  by (simp add: load_checkpoint_def load_path_def thenE_def bindE_def enter_def query_def
        raiseE_def Let_def)

lemma ensures_raiseE: "ensures (raiseE e) Q"
  unfolding ensures_def by (simp add: raiseE_eq)

lemma ensures_query_bindE:
  "(\<And>x h'. orc h' = Inr x \<Longrightarrow> ensures (g x) Q) \<Longrightarrow> ensures (bindE (query ev orc) g) Q"
  unfolding ensures_def by (auto dest!: bindE_Inr simp: query_eq)

lemma ensures_if: "(c \<Longrightarrow> ensures a Q) \<Longrightarrow> (\<not> c \<Longrightarrow> ensures b Q) \<Longrightarrow> ensures (if c then a else b) Q"
  by simp

lemma stable_start_step:
  "preserves start_step m \<Longrightarrow> stable (\<lambda>s'. \<exists>ck h'. P ck h' \<and> start_step s' = ckpt_step ck + 1) m"
  by (rule stable_preserves) auto

lemma ensures_load_checkpoint:
  assumes "load_dir (resume_train (trainer cfg)) = Some d"
  shows "ensures (load_checkpoint cfg en)
           (\<lambda>s'. \<exists>ck h'. torch_load en h' (load_path cfg d) = Inr ck \<and>
                           start_step s' = ckpt_step ck + 1)"
proof -
  let ?Q = "\<lambda>s'. \<exists>ck h'. torch_load en h' (load_path cfg d) = Inr ck \<and> start_step s' = ckpt_step ck + 1"
  have rest: "ensures
      (thenE (modifyE (\<lambda>s. s\<lparr>start_step := ckpt_step ck + 1\<rparr>))
         (thenE (call en (Graph (LoadGraph ck))) (call en (Optimizers (LoadOptimizers ck))))) ?Q"
    if "torch_load en h' (load_path cfg d) = Inr ck" for ck h'
  proof (rule ensures_thenE1)
    show "ensures (modifyE (\<lambda>s. s\<lparr>start_step := ckpt_step ck + 1\<rparr>)) ?Q"
      using that by (intro ensures_modifyE) auto
    show "stable ?Q (thenE (call en (Graph (LoadGraph ck))) (call en (Optimizers (LoadOptimizers ck))))"
      by (rule stable_start_step) (intro preserves_intros)
  qed
  show ?thesis
    unfolding load_checkpoint_def assms option.case Let_def load_path_def [symmetric]
    by (intro ensures_thenE2 ensures_bindE2 ensures_if ensures_raiseE ensures_query_bindE rest)
qed

lemma setup_trainer_loads:
  assumes "load_dir (resume_train (trainer cfg)) = Some d" and "d \<noteq> []"
  shows "ensures (setup_trainer cfg en test_mode)
           (\<lambda>s'. \<exists>ck h'. torch_load en h' (load_path cfg d) = Inr ck \<and>
                           start_step s' = ckpt_step ck + 1)"
proof -
  let ?Q = "\<lambda>s'. \<exists>ck h'. torch_load en h' (load_path cfg d) = Inr ck \<and> start_step s' = ckpt_step ck + 1"
  have t: "truthy_str (load_dir (resume_train (trainer cfg)))"
    using assms by (simp add: truthy_str_def)
  have l: "ensures (load_checkpoint cfg en) ?Q"
    by (rule ensures_load_checkpoint [OF assms(1)])
  have tail: "stable ?Q
     (thenE (bindE (getE world_size) (\<lambda>ws. bindE (getE local_rank) (\<lambda>lr.
              whenE (ws > 1)
                (thenE (call en (Dist (DDPWrap lr)))
                (thenE (modifyE (\<lambda>s. s\<lparr>wrapped := True\<rparr>))
                       (call en (Dist (DistBarrier lr))))))))
       (bindE (query (Graph RegisterCallbacks) (graph_callbacks en)) (\<lambda>cbs.
          modifyE (\<lambda>s. s\<lparr>callbacks := cbs\<rparr>))))"
    by (rule stable_start_step) (intro preserves_intros; simp)
  show ?thesis
    unfolding setup_trainer_def whenE_def
    apply (simp only: t if_True)
    apply (rule ensures_bindE2)
    apply (rule ensures_thenE2)
    apply (rule ensures_bindE2)
    apply (rule ensures_thenE2)
    apply (rule ensures_thenE2)
    apply (rule ensures_thenE2)
    apply (rule ensures_thenE2)
    apply (rule ensures_thenE1 [OF l])
    apply (rule tail [unfolded whenE_def])
    done
qed


lemma setup_trainer_absent:
  assumes "load_dir (resume_train (trainer cfg)) = Some d" and "d \<noteq> []"
    and "\<And>h'. \<not> path_exists en h' (load_path cfg d)"
    and "\<And>h' ev. fails en h' ev = None"
    and "\<And>h'. \<exists>dl. dataset_eval en h' test_mode = Inr dl"
  shows "fst (setup_trainer cfg en test_mode h s) =
           Inl (AssertionError (''Checkpoint '' @ load_path cfg d @ '' does not exist''))"
proof -
  let ?h2 = "h @ [Data (SetupDatasetTrain (device s))]"
  from assms(5) obtain dl where dl: "dataset_eval en ?h2 test_mode = Inr dl" by blast
  have t: "truthy_str (load_dir (resume_train (trainer cfg)))"
    using assms by (simp add: truthy_str_def)
  show ?thesis
    by (simp add: setup_trainer_def thenE_def bindE_def getE_def query_def modifyE_def whenE_def
          call_ok [OF assms(4)] dl t load_checkpoint_absent [OF assms(1) assms(3)])
qed

section \<open>The claims\<close>

subsection \<open>C1: The steps of a run\<close>




subsection \<open>C2: The order of the periodic actions\<close>



subsection \<open>C3: Resuming from a checkpoint\<close>

text \<open>
  Claim C3, as amended. With a resume directory configured, when the checkpoint file of
  the configured step does not exist and the collaborators that \<^verbatim>\<open>setup\<close> calls before do
  not raise, \<^verbatim>\<open>setup\<close> fails by raising \<^verbatim>\<open>AssertionError\<close> with the message
  \<^verbatim>\<open>Checkpoint <path> does not exist\<close>; and whenever \<^verbatim>\<open>setup\<close> completes, a checkpoint was
  read from that path and \<^verbatim>\<open>start_step\<close> is its stored step plus one.
\<close>

theorem setup_resume:
  assumes "load_dir (resume_train (trainer cfg)) = Some d" and "d \<noteq> []"
  shows "((\<forall>h'. \<not> path_exists en h' (load_path cfg d)) \<and>
          (\<forall>h' ev. fails en h' ev = None) \<and>
          (\<forall>h'. \<exists>dl. dataset_eval en h' test_mode = Inr dl) \<longrightarrow>
            fst (setup_trainer cfg en test_mode h s) =
              Inl (AssertionError (''Checkpoint '' @ load_path cfg d @ '' does not exist''))) \<and>
         (fst (setup_trainer cfg en test_mode h s) = Inr () \<longrightarrow>
            (\<exists>ck h'. torch_load en h' (load_path cfg d) = Inr ck \<and>
               start_step (snd (snd (setup_trainer cfg en test_mode h s))) = ckpt_step ck + 1))"
proof (intro conjI impI)
  assume "(\<forall>h'. \<not> path_exists en h' (load_path cfg d)) \<and>
          (\<forall>h' ev. fails en h' ev = None) \<and>
          (\<forall>h'. \<exists>dl. dataset_eval en h' test_mode = Inr dl)"
  then show "fst (setup_trainer cfg en test_mode h s) =
      Inl (AssertionError (''Checkpoint '' @ load_path cfg d @ '' does not exist''))"
    by (intro setup_trainer_absent [OF assms]) blast+
next
  assume "fst (setup_trainer cfg en test_mode h s) = Inr ()"
  then obtain evs s' where r: "setup_trainer cfg en test_mode h s = (Inr (), evs, s')"
    by (cases "setup_trainer cfg en test_mode h s") auto
  from ensuresD [OF setup_trainer_loads [OF assms] r]
  show "\<exists>ck h'. torch_load en h' (load_path cfg d) = Inr ck \<and>
          start_step (snd (snd (setup_trainer cfg en test_mode h s))) = ckpt_step ck + 1"
    unfolding r by simp
qed

theorem setup_resume_witness:
  "load_dir (resume_train (trainer resume_config)) = Some ''ckpts'' \<and>
   load_path resume_config ''ckpts'' = ''ckpts/step-000000007.ckpt'' \<and>
   fst (setup_trainer resume_config no_file_env False [] (new_obj 0 1)) =
     Inl (AssertionError ''Checkpoint ckpts/step-000000007.ckpt does not exist'') \<and>
   fst (setup_trainer resume_config quiet_env False [] (new_obj 0 1)) = Inr () \<and>
   start_step (snd (snd (setup_trainer resume_config quiet_env False [] (new_obj 0 1)))) = 8"
proof -
  have d: "load_dir (resume_train (trainer resume_config)) = Some ''ckpts''"
    by (simp add: resume_config_def)
  have ne: "''ckpts'' \<noteq> []" by simp
  have p: "load_path resume_config ''ckpts'' = ''ckpts/step-000000007.ckpt''"
    by code_simp
  have a: "(\<forall>h'. \<not> path_exists no_file_env h' (load_path resume_config ''ckpts'')) \<and>
      (\<forall>h' ev. fails no_file_env h' ev = None) \<and>
      (\<forall>h'. \<exists>dl. dataset_eval no_file_env h' False = Inr dl)"
    by (simp add: no_file_env_def quiet_env_def)
  have ok: "fst (setup_trainer resume_config quiet_env False [] (new_obj 0 1)) = Inr ()"
    by code_simp
  have ck: "ckpt_step ck = 7" if "torch_load quiet_env h' (load_path resume_config ''ckpts'') = Inr ck"
    for ck h'
    using that by (auto simp: quiet_env_def)
  from setup_resume [OF d ne, of no_file_env False "[]" "new_obj 0 1"] a
  have 1: "fst (setup_trainer resume_config no_file_env False [] (new_obj 0 1)) =
     Inl (AssertionError ''Checkpoint ckpts/step-000000007.ckpt does not exist'')"
    unfolding p by simp
  from setup_resume [OF d ne, of quiet_env False "[]" "new_obj 0 1"] ok
  have 2: "start_step (snd (snd (setup_trainer resume_config quiet_env False [] (new_obj 0 1)))) = 8"
    using ck by fastforce
  from d p 1 ok 2 show ?thesis by blast
qed

text \<open>
  The claim as stated fails: the exception raised for a missing checkpoint file is the
  \<^verbatim>\<open>AssertionError\<close> of line 159, not a \<^verbatim>\<open>CheckpointNotFoundError\<close>.
\<close>

theorem setup_missing_checkpoint_raises_assertion_error:
  "fst (setup_trainer resume_config no_file_env False [] (new_obj 0 1)) =
     Inl (AssertionError ''Checkpoint ckpts/step-000000007.ckpt does not exist'') \<and>
   fst (setup_trainer resume_config no_file_env False [] (new_obj 0 1)) \<noteq>
     Inl (OtherError ''CheckpointNotFoundError'')"
  by code_simp

subsection \<open>C4: One training iteration\<close>

text \<open>
  Claim C4. For every batch and step, when the forward pass returns a loss dictionary
  with an \<^verbatim>\<open>aggregated_loss\<close> entry and no collaborator raises, \<^verbatim>\<open>train_iteration\<close> calls,
  in this order and nothing else: the forward pass, \<^verbatim>\<open>zero_grad_all\<close>, \<^verbatim>\<open>backward\<close> on the
  \<^verbatim>\<open>aggregated_loss\<close> entry, \<^verbatim>\<open>optimizer_step_all\<close>, \<^verbatim>\<open>scheduler_step_all\<close> with the
  step it was given, and \<^verbatim>\<open>after_step\<close> of every callback with that step; it returns the
  loss dictionary of the forward pass and leaves the trainer's attributes as they were.
\<close>

theorem train_iteration_sequence:
  assumes "forward en (h @ [Method (TrainIteration b step)]) b = Inr d"
    and "map_of d ''aggregated_loss'' = Some loss"
    and "\<And>h' ev. fails en h' ev = None"
  shows "train_iteration en b step h s =
           (Inr d,
            [Method (TrainIteration b step),
             Graph (Forward b),
             Optimizers ZeroGradAll,
             Graph (Backward loss),
             Optimizers OptimizerStepAll,
             Optimizers (SchedulerStepAll step)]
            @ map (\<lambda>c. Graph (AfterStep c step)) (callbacks s),
            s)"
  by (simp add: train_iteration_def thenE_def bindE_def enter_def query_def liftE_def
        dict_get_def call_ok [OF assms(3)] getE_def returnE_def assms(1,2) forE_calls [OF assms(3)])

theorem train_iteration_sequence_witness:
  "forward quiet_env [Method (TrainIteration 4 9)] 4 =
      Inr [(''rgb_loss'', Blob 1), (''aggregated_loss'', Blob 2)] \<and>
   map_of [(''rgb_loss'', Blob 1), (''aggregated_loss'', Blob 2)] ''aggregated_loss'' = Some (Blob 2) \<and>
   train_iteration quiet_env 4 9 [] ready_obj =
     (Inr [(''rgb_loss'', Blob 1), (''aggregated_loss'', Blob 2)],
      [Method (TrainIteration 4 9), Graph (Forward 4), Optimizers ZeroGradAll,
       Graph (Backward (Blob 2)), Optimizers OptimizerStepAll,
       Optimizers (SchedulerStepAll 9), Graph (AfterStep 0 9)],
      ready_obj)"
proof -
  have 1: "forward quiet_env ([] @ [Method (TrainIteration 4 9)]) 4 =
      Inr [(''rgb_loss'', Blob 1), (''aggregated_loss'', Blob 2)]"
    by (simp add: quiet_env_def)
  have 2: "map_of [(''rgb_loss'', Blob 1), (''aggregated_loss'', Blob 2)] ''aggregated_loss'' = Some (Blob 2)"
    by simp
  have 3: "\<And>h' ev. fails quiet_env h' ev = None" by (simp add: quiet_env_def)
  from train_iteration_sequence [OF 1 2 3, of ready_obj] 1 2 show ?thesis
    by (simp add: ready_obj_def)
qed

subsection \<open>C5: The resumption cursor\<close>



subsection \<open>C6: The mode of the model after evaluation\<close>




subsection \<open>C7: When the metric storage is flushed\<close>

text \<open>
  Claim C7. On every step whose loop body completes, the metric storage is flushed if and
  only if LOG, SAVE or TEST is due at that step by the rules of section 4.2 or the step
  equals \<^verbatim>\<open>max_num_iterations\<close>; and the loop logs, saves and evaluates exactly when those
  rules say so.
\<close>

theorem flush_iff_due:
  assumes "train_loop_body cfg en step h s = (Inr u, evs, s')"
  shows "(FLUSH \<in> set (actions_of evs)) =
           (spec_due_LOG cfg step \<or> spec_due_SAVE cfg step \<or> spec_due_TEST cfg step \<or>
            step = max_num_iterations (trainer cfg)) \<and>
         (LOG step \<in> set (actions_of evs)) = spec_due_LOG cfg step \<and>
         (SAVE step \<in> set (actions_of evs)) = spec_due_SAVE cfg step \<and>
         (TEST step \<in> set (actions_of evs)) = spec_due_TEST cfg step"
proof -
  from train_loop_body_conds [OF assms] obtain c1 c2
    where "test_cond cfg step = Inr c1" and "write_out_cond cfg step = Inr c2" by blast
  then have nz: "steps_per_log (logging cfg) \<noteq> 0" "steps_per_test (trainer cfg) \<noteq> 0"
    by (auto dest: test_cond_Inr write_out_cond_Inr)
  have a: "actions_of evs = body_schedule cfg (vis s) step"
    using runsD [OF runs_train_loop_body assms] by simp
  show ?thesis
    unfolding a body_schedule_def conds_spec [OF nz] by auto
qed

theorem flush_iff_due_witness:
  "fst (train_loop_body (make_config 3 2 (Some 2) 3) quiet_env 2 [] ready_obj) = Inr () \<and>
   spec_due_LOG (make_config 3 2 (Some 2) 3) 2 \<and>
   FLUSH \<in> set (actions_of (fst (snd (train_loop_body (make_config 3 2 (Some 2) 3) quiet_env 2 [] ready_obj)))) \<and>
   TEST 2 \<notin> set (actions_of (fst (snd (train_loop_body (make_config 3 2 (Some 2) 3) quiet_env 2 [] ready_obj))))"
proof -
  have "fst (train_loop_body (make_config 3 2 (Some 2) 3) quiet_env 2 [] ready_obj) = Inr ()"
    by code_simp
  then obtain evs s' where
    r: "train_loop_body (make_config 3 2 (Some 2) 3) quiet_env 2 [] ready_obj = (Inr (), evs, s')"
    by (cases "train_loop_body (make_config 3 2 (Some 2) 3) quiet_env 2 [] ready_obj") auto
  from flush_iff_due [OF r] show ?thesis
    unfolding r by (simp add: spec_due_LOG_def spec_due_TEST_def make_config_def)
qed

subsection \<open>C8: A scenario\<close>

text \<open>
  Claim C8, as amended. In the scenario \<^verbatim>\<open>max_num_iterations = 10\<close>,
  \<^verbatim>\<open>steps_per_log = 5\<close>, \<^verbatim>\<open>steps_per_save = None\<close>, \<^verbatim>\<open>steps_per_test = 10\<close> with
  \<^verbatim>\<open>start_step = 0\<close>, when no collaborator raises, the run completes; over the steps 0 to 9
  LOG fires at step 5 only, SAVE never fires, TEST fires at step 0 only; the storage is
  flushed at steps 0 and 5 and once more after the loop, by \<^verbatim>\<open>_write_out_storage(10)\<close>,
  which runs no evaluation.
\<close>

theorem scenario_schedule:
  assumes "cooperative en"
    and "max_num_iterations (trainer cfg) = 10"
    and "steps_per_log (logging cfg) = 5"
    and "steps_per_save (trainer cfg) = None"
    and "steps_per_test (trainer cfg) = 10"
    and "start_step s = 0"
    and "vis s \<longrightarrow> 10 \<le> train_dataset_len en"
  shows "\<exists>evs s'. train cfg en h s = (Inr (), evs, s') \<and>
           filter is_cadence_action (actions_of evs) =
             [TEST 0, WRITE_OUT 0, FLUSH,
              WRITE_OUT 1, WRITE_OUT 2, WRITE_OUT 3, WRITE_OUT 4,
              LOG 5, WRITE_OUT 5, FLUSH,
              WRITE_OUT 6, WRITE_OUT 7, WRITE_OUT 8, WRITE_OUT 9,
              WRITE_OUT 10, FLUSH]"
proof -
  have nz: "steps_per_log (logging cfg) \<noteq> 0" "steps_per_test (trainer cfg) \<noteq> 0"
    using assms(3,5) by simp_all
  from train_completes [OF assms(1) nz, of s h] assms(7)
  obtain evs s' where r: "train cfg en h s = (Inr (), evs, s')" by blast
  have steps: "py_range 0 (0 + 10) = [0, 1, 2, 3, 4, 5, 6, 7, 8, 9]"
    by (simp add: py_range_def upto_rec1)
  have "filter is_cadence_action (actions_of evs) =
             [TEST 0, WRITE_OUT 0, FLUSH,
              WRITE_OUT 1, WRITE_OUT 2, WRITE_OUT 3, WRITE_OUT 4,
              LOG 5, WRITE_OUT 5, FLUSH,
              WRITE_OUT 6, WRITE_OUT 7, WRITE_OUT 8, WRITE_OUT 9,
              WRITE_OUT 10, FLUSH]"
    unfolding train_Inr [OF r] train_schedule_def assms(2,6) steps
    by (simp add: cadence_body_schedule conds_spec [OF nz] spec_due_LOG_def spec_due_SAVE_def
          spec_due_TEST_def assms)
  with r show ?thesis by blast
qed

theorem scenario_schedule_witness:
  "cooperative quiet_env \<and>
   max_num_iterations (trainer (make_config 10 5 None 10)) = 10 \<and>
   steps_per_log (logging (make_config 10 5 None 10)) = 5 \<and>
   steps_per_save (trainer (make_config 10 5 None 10)) = None \<and>
   steps_per_test (trainer (make_config 10 5 None 10)) = 10 \<and>
   start_step ready_obj = 0 \<and> \<not> vis ready_obj \<and>
   (\<exists>evs s'. train (make_config 10 5 None 10) quiet_env [] ready_obj = (Inr (), evs, s') \<and>
      filter is_cadence_action (actions_of evs) =
             [TEST 0, WRITE_OUT 0, FLUSH,
              WRITE_OUT 1, WRITE_OUT 2, WRITE_OUT 3, WRITE_OUT 4,
              LOG 5, WRITE_OUT 5, FLUSH,
              WRITE_OUT 6, WRITE_OUT 7, WRITE_OUT 8, WRITE_OUT 9,
              WRITE_OUT 10, FLUSH])"
proof -
  have c: "max_num_iterations (trainer (make_config 10 5 None 10)) = 10"
    "steps_per_log (logging (make_config 10 5 None 10)) = 5"
    "steps_per_save (trainer (make_config 10 5 None 10)) = None"
    "steps_per_test (trainer (make_config 10 5 None 10)) = 10"
    by (simp_all add: make_config_def)
  have o: "start_step ready_obj = 0" "\<not> vis ready_obj" "vis ready_obj \<longrightarrow> 10 \<le> train_dataset_len quiet_env"
    by (simp_all add: ready_obj_def)
  from scenario_schedule [OF cooperative_quiet_env c o(1) o(3), of "[]"]
  show ?thesis using cooperative_quiet_env c o(1,2) by simp
qed

text \<open>
  The claim as stated fails: in the scenario run no evaluation is started with step 10,
  the only one is that of step 0.
\<close>

theorem scenario_no_test_at_step_10:
  "fst (train (make_config 10 5 None 10) quiet_env [] ready_obj) = Inr () \<and>
   TEST 0 \<in> set (actions_of (fst (snd (train (make_config 10 5 None 10) quiet_env [] ready_obj)))) \<and>
   TEST 10 \<notin> set (actions_of (fst (snd (train (make_config 10 5 None 10) quiet_env [] ready_obj))))"
  by code_simp

subsection \<open>C9: A loss dictionary without the aggregated loss\<close>

text \<open>
  Claim C9. When the forward pass returns a loss dictionary without the key
  \<^verbatim>\<open>aggregated_loss\<close>, \<^verbatim>\<open>train_iteration\<close> raises \<^verbatim>\<open>KeyError\<close> right after the forward
  pass: no call reaches the optimizers, the schedulers or a callback, and the trainer's
  attributes are unchanged.
\<close>

theorem train_iteration_missing_loss:
  assumes "forward en (h @ [Method (TrainIteration b step)]) b = Inr d"
    and "map_of d ''aggregated_loss'' = None"
  shows "train_iteration en b step h s =
           (Inl (KeyError ''aggregated_loss''),
            [Method (TrainIteration b step), Graph (Forward b)],
            s)"
  by (simp add: train_iteration_def thenE_def bindE_def enter_def query_def liftE_def
        dict_get_def assms)

theorem train_iteration_missing_loss_witness:
  "forward lossless_env [Method (TrainIteration 4 9)] 4 = Inr [(''rgb_loss'', Blob 1)] \<and>
   map_of [(''rgb_loss'', Blob 1)] ''aggregated_loss'' = None \<and>
   train_iteration lossless_env 4 9 [] ready_obj =
     (Inl (KeyError ''aggregated_loss''),
      [Method (TrainIteration 4 9), Graph (Forward 4)], ready_obj)"
proof -
  have 1: "forward lossless_env ([] @ [Method (TrainIteration 4 9)]) 4 = Inr [(''rgb_loss'', Blob 1)]"
    by (simp add: lossless_env_def)
  have 2: "map_of [(''rgb_loss'', Blob 1)] ''aggregated_loss'' = None"
    by simp
  from train_iteration_missing_loss [OF 1 2, of ready_obj] 1 2 show ?thesis by simp
qed

subsection \<open>C10: The compute device\<close>

text \<open>
  Claim C10. The constructor selects the device \<^verbatim>\<open>cpu\<close> if and only if \<^verbatim>\<open>world_size\<close> is
  0; for every \<^verbatim>\<open>world_size\<close> of at least 1, also 1, the device is \<^verbatim>\<open>cuda:\<close> followed by
  the local rank in decimal.
\<close>

theorem init_selects_device:
  "(device (snd (snd (init cfg en lr ws h))) = ''cpu'') = (ws = 0) \<and>
   (1 \<le> ws \<longrightarrow> device (snd (snd (init cfg en lr ws h))) = ''cuda:'' @ str_int lr)"
  by (simp add: init_device new_obj_def)

theorem init_selects_device_witness:
  "device (snd (snd (init (make_config 3 2 None 3) quiet_env 0 1 []))) = ''cuda:0'' \<and>
   device (snd (snd (init (make_config 3 2 None 3) quiet_env 3 0 []))) = ''cpu'' \<and>
   device (snd (snd (init (make_config 3 2 None 3) quiet_env 12 4 []))) = ''cuda:12''"
proof -
  have s: "str_int 0 = ''0''" "str_int 12 = ''12''" by code_simp+
  from init_selects_device [of "make_config 3 2 None 3" quiet_env 0 1 "[]"]
    init_selects_device [of "make_config 3 2 None 3" quiet_env 3 0 "[]"]
    init_selects_device [of "make_config 3 2 None 3" quiet_env 12 4 "[]"]
  show ?thesis by (simp add: s)
qed

end
